theory Spec2Isabelle
  imports Main "HOL-Library.Word"
begin

section \<open>SQLite queue manager (sqlite-queue.js)\<close>

text \<open>
  The class \<open>SQLiteQueueManager\<close> keeps two fields beside the broker identifier: the
  sqlite3 \<open>Database\<close> object \<open>db\<close> (or null) and the flag \<open>dbInitialized\<close>. Every
  method is an asynchronous function; the model runs each call to completion. A call
  that resolves is the right summand of the result; the left summand is a call that does
  not resolve: its promise is rejected or an \<open>Error\<close> is thrown, or (\<open>NeverSettled\<close>) its
  promise is never settled. The object's fields and the file system are passed
  explicitly.

  The SQL statements of the source are executed by SQLite. Their meaning on the one
  table \<open>message_queue\<close> is written out below as functions on the list of rows, which
  is kept in ascending \<open>rowid\<close> order as the table's B-tree is.
\<close>

subsection \<open>Errors\<close>

datatype error =
    NotInitialized        \<comment> \<open>\<open>new Error("Database not initialized")\<close>\<close>
  | FsError string        \<comment> \<open>exception of \<open>fs.mkdirSync\<close>\<close>
  | SqliteError string    \<comment> \<open>the \<open>err\<close> handed to a sqlite3 callback\<close>
  | NeverSettled          \<comment> \<open>no error: the callback is never called, the promise stays pending\<close>

subsection \<open>The table \<open>message_queue\<close> and the database file\<close>

record row =
  rowid :: int            \<comment> \<open>column \<open>id INTEGER PRIMARY KEY AUTOINCREMENT\<close>\<close>
  topic :: string         \<comment> \<open>\<open>TEXT NOT NULL\<close>\<close>
  payload :: string       \<comment> \<open>\<open>TEXT NOT NULL\<close>\<close>
  qos :: int              \<comment> \<open>\<open>INTEGER DEFAULT 0\<close>\<close>
  retain :: int           \<comment> \<open>\<open>BOOLEAN DEFAULT 0\<close>, stored as 0 or 1\<close>
  timestamp :: nat        \<comment> \<open>\<open>DATETIME DEFAULT CURRENT_TIMESTAMP\<close>\<close>

record dbfile =
  tbl :: "row list option"   \<comment> \<open>the rows in \<open>rowid\<close> order; \<open>None\<close>: no such table\<close>
  autoinc_seq :: int         \<comment> \<open>the table's entry in \<open>sqlite_sequence\<close>\<close>

definition empty_dbfile :: dbfile where
  "empty_dbfile = \<lparr>tbl = None, autoinc_seq = 0\<rparr>"

text \<open>\<open>CREATE TABLE IF NOT EXISTS message_queue (...)\<close>\<close>

definition sql_create_table :: "dbfile \<Rightarrow> dbfile" where
  "sql_create_table f = (case tbl f of None \<Rightarrow> f\<lparr>tbl := Some []\<rparr> | Some rs \<Rightarrow> f)"

text \<open>
  \<open>INSERT INTO message_queue (topic, payload, qos, retain) VALUES (?, ?, ?, ?)\<close>.
  A null topic violates \<open>NOT NULL\<close>. With \<open>AUTOINCREMENT\<close> the new \<open>rowid\<close> is one more
  than the largest \<open>rowid\<close> the table ever held, which \<open>sqlite_sequence\<close> records; when
  that is the largest 64-bit integer the insertion fails with \<open>SQLITE_FULL\<close>.
\<close>

definition max_rowid :: int where
  "max_rowid = 9223372036854775807"

definition largest_rowid :: "dbfile \<Rightarrow> row list \<Rightarrow> int" where
  "largest_rowid f rs = fold max (map rowid rs) (autoinc_seq f)"

definition sql_insert ::
  "nat \<Rightarrow> string option \<Rightarrow> string \<Rightarrow> int \<Rightarrow> int \<Rightarrow> dbfile \<Rightarrow> row list \<Rightarrow> error + dbfile" where
  "sql_insert now t p q r f rs =
     (case t of
        None \<Rightarrow> Inl (SqliteError ''SQLITE_CONSTRAINT: NOT NULL constraint failed: message_queue.topic'')
      | Some tp \<Rightarrow>
          if largest_rowid f rs \<ge> max_rowid
          then Inl (SqliteError ''SQLITE_FULL: database or disk is full'')
          else let i = largest_rowid f rs + 1 in
            Inr (f\<lparr>tbl := Some (insort_key rowid
                     \<lparr>rowid = i, topic = tp, payload = p, qos = q, retain = r, timestamp = now\<rparr> rs),
                   autoinc_seq := i\<rparr>))"

text \<open>\<open>SELECT COUNT( * ) as count FROM message_queue\<close>\<close>

definition sql_count :: "row list \<Rightarrow> int" where
  "sql_count rs = int (length rs)"

text \<open>
  \<open>DELETE FROM message_queue WHERE id = (SELECT MIN(id) FROM message_queue)\<close>.
  \<open>MIN\<close> of the empty table is \<open>NULL\<close>, which no \<open>id\<close> equals.
\<close>

definition sql_min_id :: "row list \<Rightarrow> int option" where
  "sql_min_id rs = (case rs of [] \<Rightarrow> None | r # rs' \<Rightarrow> Some (fold min (map rowid rs') (rowid r)))"

definition sql_delete_min :: "row list \<Rightarrow> row list" where
  "sql_delete_min rs =
     (case sql_min_id rs of None \<Rightarrow> rs | Some m \<Rightarrow> filter (\<lambda>r. rowid r \<noteq> m) rs)"

text \<open>
  \<open>SELECT * FROM message_queue LIMIT ?\<close>. The statement has no \<open>ORDER BY\<close>; the table
  has no index beside its \<open>rowid\<close> B-tree, which SQLite scans in ascending \<open>rowid\<close>
  order, and the scan is cut after \<open>limit\<close> rows. SQLite reads a negative \<open>LIMIT\<close> as no
  upper bound. The limit has to be a 64-bit integer strictly between \<open>-2^63\<close> and
  \<open>2^63\<close>; a number at or beyond these bounds is refused with \<open>SQLITE_MISMATCH\<close>.
\<close>

definition sql_select_limit :: "int \<Rightarrow> row list \<Rightarrow> error + row list" where
  "sql_select_limit lim rs =
     (if lim \<le> - 9223372036854775808 \<or> 9223372036854775808 \<le> lim
      then Inl (SqliteError ''SQLITE_MISMATCH: datatype mismatch'')
      else if lim < 0 then Inr rs
      else Inr (take (nat lim) rs))"

text \<open>
  \<open>DELETE FROM message_queue WHERE id IN (?,...,?)\<close>. A statement may hold at most
  32766 placeholders; one with more is refused and deletes nothing.
\<close>

definition max_variable_number :: nat where
  "max_variable_number = 32766"

definition sql_delete_in :: "int list \<Rightarrow> row list \<Rightarrow> row list" where
  "sql_delete_in ids rs = filter (\<lambda>r. rowid r \<notin> set ids) rs"

text \<open>\<open>DELETE FROM message_queue WHERE id = ?\<close>\<close>

definition sql_delete_id :: "int \<Rightarrow> row list \<Rightarrow> row list" where
  "sql_delete_id i rs = filter (\<lambda>r. rowid r \<noteq> i) rs"

subsection \<open>The file system and the sqlite3 binding\<close>

text \<open>
  The world outside the object: whether the directory \<open>data\<close> exists, the database file
  of this broker (\<open>None\<close> while it does not exist), and the log of the calls made to
  \<open>fs\<close> and to \<open>sqlite3\<close>.
\<close>

datatype call = MkdirSync | NewDatabase | DbRun | DbGet | DbAll | DbClose

record world =
  dir_exists :: bool
  db_file :: "dbfile option"
  calls :: "call list"

text \<open>
  A \<open>Database\<close> object; the flag tells whether its file was opened. The constructor
  returns the object at once, also when opening fails later.
\<close>

datatype database = Database bool

record store =
  brokerId :: string
  db :: "database option"
  dbInitialized :: bool

type_synonym sys = "store \<times> world"

definition logcall :: "call \<Rightarrow> world \<Rightarrow> world" where
  "logcall c w = w\<lparr>calls := calls w @ [c]\<rparr>"

text \<open>
  What a statement finds when it is run on a handle. On an object whose file could not be
  opened the statement waits for the opening and its callback is never called. \<open>err\<close>
  is the failure of the engine on this call, if any (I/O error, busy or full database); a
  statement on a missing table fails. Otherwise the statement sees the file and the rows
  of the table.
\<close>

definition sqlite_table :: "database \<Rightarrow> string option \<Rightarrow> world \<Rightarrow> error + dbfile \<times> row list" where
  "sqlite_table h err w =
     (case h of Database opened \<Rightarrow>
        if \<not> opened then Inl NeverSettled
        else
          (case err of
             Some m \<Rightarrow> Inl (SqliteError m)
           | None \<Rightarrow>
               (case db_file w of
                  None \<Rightarrow> Inl (SqliteError ''SQLITE_CANTOPEN: unable to open database file'')
                | Some f \<Rightarrow>
                    (case tbl f of
                       None \<Rightarrow> Inl (SqliteError ''SQLITE_ERROR: no such table: message_queue'')
                     | Some rs \<Rightarrow> Inr (f, rs)))))"

subsection \<open>Integers handed to JavaScript\<close>

text \<open>
  The binding hands a 64-bit integer column to the caller as a JavaScript number, the
  double nearest to it (ties to the even significand). Up to \<open>2^53\<close> in magnitude the
  number is the integer itself; beyond, \<open>ulp\<close> is the distance between neighbouring
  doubles.
\<close>

fun ulp :: "nat \<Rightarrow> nat" where
  "ulp m = (if m < 9007199254740992 then 1 else 2 * ulp (m div 2))"

declare ulp.simps [simp del]

definition round_nat :: "nat \<Rightarrow> nat" where
  "round_nat m =
     (let e = ulp m; q = m div e; r = m mod e
      in (if e < 2 * r \<or> (2 * r = e \<and> odd q) then q + 1 else q) * e)"

definition js_number :: "int \<Rightarrow> int" where
  "js_number n = (if n < 0 then - int (round_nat (nat (- n))) else int (round_nat (nat n)))"

text \<open>
  A row as the callback of \<open>db.all\<close> receives it: the integer columns as JavaScript
  numbers, the text columns as they are.
\<close>

definition js_row :: "row \<Rightarrow> row" where
  "js_row r =
     r\<lparr>rowid := js_number (rowid r), qos := js_number (qos r), retain := js_number (retain r)\<rparr>"

subsection \<open>\<open>JSON.stringify\<close>\<close>

text \<open>
  The payloads are JSON-compatible values. A number is an integer from \<open>-2^53\<close> to
  \<open>2^53 - 1\<close>, a 54-bit signed word: these are doubles, and \<open>JSON.stringify\<close> prints them
  in plain decimal. A number with a fraction or of larger magnitude, which
  \<open>JSON.stringify\<close> prints by the shortest digits that identify the double, is not a value
  of this type. Strings are lists of 8-bit characters; an object is the list of its
  members in enumeration order.
\<close>

datatype json =
    JNull
  | JBool bool
  | JNum "54 word"
  | JStr string
  | JArr "json list"
  | JObj "(string \<times> json) list"

definition digit_char :: "nat \<Rightarrow> char" where
  "digit_char n = ''0123456789abcdef'' ! n"

fun decimal :: "nat \<Rightarrow> string" where
  "decimal n = (if n < 10 then [digit_char n] else decimal (n div 10) @ [digit_char (n mod 10)])"

declare decimal.simps [simp del]

definition decimal_int :: "int \<Rightarrow> string" where
  "decimal_int n = (if n < 0 then CHR ''-'' # decimal (nat (- n)) else decimal (nat n))"

text \<open>\<open>Number::toString\<close> on the numbers of the payloads: the integer in plain decimal.\<close>

definition number_to_string :: "54 word \<Rightarrow> string" where
  "number_to_string n = decimal_int (sint n)"

text \<open>
  \<open>QuoteJSONString\<close>: the two-character escapes, \<open>\u00XX\<close> for the other control
  characters, every other character as it is. \<open>CHR 0x5C\<close> is the backslash and
  \<open>CHR 0x22\<close> the double quote.
\<close>

definition unicode_escape :: "char \<Rightarrow> string" where
  "unicode_escape c =
     (let n = (of_char c :: nat) in
      [CHR 0x5C, CHR ''u'', digit_char (n div 4096 mod 16), digit_char (n div 256 mod 16),
       digit_char (n div 16 mod 16), digit_char (n mod 16)])"

definition quote_char :: "char \<Rightarrow> string" where
  "quote_char c =
     (if c = CHR 0x08 then [CHR 0x5C, CHR ''b'']
      else if c = CHR 0x09 then [CHR 0x5C, CHR ''t'']
      else if c = CHR 0x0A then [CHR 0x5C, CHR ''n'']
      else if c = CHR 0x0C then [CHR 0x5C, CHR ''f'']
      else if c = CHR 0x0D then [CHR 0x5C, CHR ''r'']
      else if c = CHR 0x22 then [CHR 0x5C, CHR 0x22]
      else if c = CHR 0x5C then [CHR 0x5C, CHR 0x5C]
      else if (of_char c :: nat) < 32 then unicode_escape c
      else [c])"

definition quote_json_string :: "string \<Rightarrow> string" where
  "quote_json_string s = CHR 0x22 # concat (map quote_char s) @ [CHR 0x22]"

fun commas :: "string list \<Rightarrow> string" where
  "commas [] = []"
| "commas [x] = x"
| "commas (x # y # ys) = x @ CHR '','' # commas (y # ys)"

fun stringify :: "json \<Rightarrow> string" where
  "stringify JNull = ''null''"
| "stringify (JBool b) = (if b then ''true'' else ''false'')"
| "stringify (JNum n) = number_to_string n"
| "stringify (JStr s) = quote_json_string s"
| "stringify (JArr xs) = CHR ''['' # commas (map stringify xs) @ '']''"
| "stringify (JObj kvs) =
     CHR ''{'' # commas (map (\<lambda>kv. quote_json_string (fst kv) @ CHR '':'' # stringify (snd kv)) kvs)
       @ ''}''"

subsection \<open>The methods of \<open>SQLiteQueueManager\<close>\<close>

definition new_SQLiteQueueManager :: "string \<Rightarrow> store" where
  "new_SQLiteQueueManager b = \<lparr>brokerId = b, db = None, dbInitialized = False\<rparr>"

text \<open>
  The outcomes of the three calls \<open>initializeDatabase\<close> makes outside the object:
  \<open>fs.mkdirSync\<close> (it throws), opening the file and running the schema statement (each
  hands \<open>err\<close> to its callback). \<open>this.db\<close> is assigned when the \<open>Database\<close> object is
  constructed, before either callback runs.
\<close>

record init_env =
  mkdir_err :: "string option"
  open_err :: "string option"
  schema_err :: "string option"

definition initializeDatabase :: "init_env \<Rightarrow> sys \<Rightarrow> (error + database) \<times> sys" where
  "initializeDatabase e sw =
     (case sw of (s, w) \<Rightarrow>
        if dbInitialized s \<and> db s \<noteq> None then (Inr (the (db s)), s, w)
        else
          (case (if dir_exists w then None else mkdir_err e) of
             Some m \<Rightarrow> (Inl (FsError m), s, logcall MkdirSync w)
           | None \<Rightarrow>
               let w1 = (if dir_exists w then w else logcall MkdirSync (w\<lparr>dir_exists := True\<rparr>));
                   w2 = logcall NewDatabase w1
               in (case open_err e of
                     Some m \<Rightarrow> (Inl (SqliteError m), s\<lparr>db := Some (Database False)\<rparr>, w2)
                   | None \<Rightarrow>
                       let f = (case db_file w2 of None \<Rightarrow> empty_dbfile | Some f' \<Rightarrow> f');
                           w3 = logcall DbRun (w2\<lparr>db_file := Some f\<rparr>)
                       in (case schema_err e of
                             Some m \<Rightarrow> (Inl (SqliteError m), s\<lparr>db := Some (Database True)\<rparr>, w3)
                           | None \<Rightarrow>
                               (Inr (Database True),
                                s\<lparr>db := Some (Database True), dbInitialized := True\<rparr>,
                                w3\<lparr>db_file := Some (sql_create_table f)\<rparr>)))))"

definition getQueueLength :: "string option \<Rightarrow> sys \<Rightarrow> (error + int) \<times> sys" where
  "getQueueLength err sw =
     (case sw of (s, w) \<Rightarrow>
        (case db s of
           None \<Rightarrow> (Inr 0, s, w)
         | Some h \<Rightarrow>
             (case sqlite_table h err w of
                Inl e \<Rightarrow> (Inl e, s, logcall DbGet w)
              | Inr (f, rs) \<Rightarrow> (Inr (sql_count rs), s, logcall DbGet w))))"

text \<open>
  \<open>addMessageToQueue(topic, payload, qos = 0, retain = false)\<close>: an omitted argument is
  \<open>None\<close> and takes its default; a null or undefined topic is \<open>None\<close> and is bound as
  \<open>NULL\<close>. \<open>now\<close> is the engine's clock at the insertion.
\<close>

definition addMessageToQueue ::
  "string option \<Rightarrow> nat \<Rightarrow> string option \<Rightarrow> json \<Rightarrow> int option \<Rightarrow> bool option \<Rightarrow> sys
     \<Rightarrow> (error + unit) \<times> sys" where
  "addMessageToQueue err now tpc pl qos_arg retain_arg sw =
     (case sw of (s, w) \<Rightarrow>
        (case db s of
           None \<Rightarrow> (Inl NotInitialized, s, w)
         | Some h \<Rightarrow>
             let q = (case qos_arg of None \<Rightarrow> 0 | Some q' \<Rightarrow> q');
                 r = (case retain_arg of None \<Rightarrow> False | Some r' \<Rightarrow> r');
                 payloadStr = stringify pl
             in (case sqlite_table h err w of
                   Inl e \<Rightarrow> (Inl e, s, logcall DbRun w)
                 | Inr (f, rs) \<Rightarrow>
                     (case sql_insert now tpc payloadStr q (if r then 1 else 0) f rs of
                        Inl e \<Rightarrow> (Inl e, s, logcall DbRun w)
                      | Inr f' \<Rightarrow> (Inr (), s, logcall DbRun (w\<lparr>db_file := Some f'\<rparr>))))))"

text \<open>
  A \<open>DELETE\<close> statement with \<open>nvars\<close> placeholders run on the handle. On an open handle
  the statement is parsed first, and refused there when it has too many placeholders.
\<close>

definition run_delete ::
  "database \<Rightarrow> string option \<Rightarrow> nat \<Rightarrow> (row list \<Rightarrow> row list) \<Rightarrow> world
     \<Rightarrow> (error + unit) \<times> world" where
  "run_delete h err nvars del w =
     (case h of Database opened \<Rightarrow>
        if opened \<and> max_variable_number < nvars
        then (Inl (SqliteError ''SQLITE_ERROR: too many SQL variables''), logcall DbRun w)
        else
          (case sqlite_table h err w of
             Inl e \<Rightarrow> (Inl e, logcall DbRun w)
           | Inr (f, rs) \<Rightarrow>
               (Inr (), logcall DbRun (w\<lparr>db_file := Some (f\<lparr>tbl := Some (del rs)\<rparr>)\<rparr>))))"

definition removeOldestMessage :: "string option \<Rightarrow> sys \<Rightarrow> (error + unit) \<times> sys" where
  "removeOldestMessage err sw =
     (case sw of (s, w) \<Rightarrow>
        (case db s of
           None \<Rightarrow> (Inl NotInitialized, s, w)
         | Some h \<Rightarrow> (case run_delete h err 0 sql_delete_min w of (res, w') \<Rightarrow> (res, s, w'))))"

text \<open>
  \<open>getMessagesFromQueue(limit = 500)\<close>: the limit is bound as it is, and the rows come
  back as JavaScript objects.
\<close>

definition getMessagesFromQueue :: "string option \<Rightarrow> int option \<Rightarrow> sys \<Rightarrow> (error + row list) \<times> sys" where
  "getMessagesFromQueue err limit_arg sw =
     (case sw of (s, w) \<Rightarrow>
        (case db s of
           None \<Rightarrow> (Inr [], s, w)
         | Some h \<Rightarrow>
             let lim = (case limit_arg of None \<Rightarrow> 500 | Some l \<Rightarrow> l)
             in (case sqlite_table h err w of
                   Inl e \<Rightarrow> (Inl e, s, logcall DbAll w)
                 | Inr (f, rs) \<Rightarrow>
                     (case sql_select_limit lim rs of
                        Inl e \<Rightarrow> (Inl e, s, logcall DbAll w)
                      | Inr rows \<Rightarrow> (Inr (map js_row rows), s, logcall DbAll w)))))"

definition removeMessagesFromQueue :: "string option \<Rightarrow> int list \<Rightarrow> sys \<Rightarrow> (error + unit) \<times> sys" where
  "removeMessagesFromQueue err messageIds sw =
     (case sw of (s, w) \<Rightarrow>
        if db s = None \<or> length messageIds = 0 then (Inr (), s, w)
        else (case run_delete (the (db s)) err (length messageIds) (sql_delete_in messageIds) w of
                (res, w') \<Rightarrow> (res, s, w')))"

definition removeMessageFromQueue :: "string option \<Rightarrow> int \<Rightarrow> sys \<Rightarrow> (error + unit) \<times> sys" where
  "removeMessageFromQueue err messageId sw =
     (case sw of (s, w) \<Rightarrow>
        (case db s of
           None \<Rightarrow> (Inl NotInitialized, s, w)
         | Some h \<Rightarrow>
             (case run_delete h err 1 (sql_delete_id messageId) w of (res, w') \<Rightarrow> (res, s, w'))))"

text \<open>
  \<open>closeDatabase\<close>: the fields are reset in the callback of a successful \<open>close\<close> only.
  On an object whose file could not be opened the callback is never called.
\<close>

definition closeDatabase :: "string option \<Rightarrow> sys \<Rightarrow> (error + unit) \<times> sys" where
  "closeDatabase err sw =
     (case sw of (s, w) \<Rightarrow>
        (case db s of
           None \<Rightarrow> (Inr (), s, w)
         | Some (Database opened) \<Rightarrow>
             if \<not> opened then (Inl NeverSettled, s, logcall DbClose w)
             else
               (case err of
                  Some m \<Rightarrow> (Inl (SqliteError m), s, logcall DbClose w)
                | None \<Rightarrow> (Inr (), s\<lparr>db := None, dbInitialized := False\<rparr>, logcall DbClose w))))"

subsection \<open>Observations and sequences of calls\<close>

text \<open>
  The rows a store's file holds and the largest identifier its table ever held, read off
  the world; both are defined for a world without file or table as for an empty table.
\<close>

definition pending :: "sys \<Rightarrow> row list" where
  "pending sw =
     (case db_file (snd sw) of
        None \<Rightarrow> []
      | Some f \<Rightarrow> (case tbl f of None \<Rightarrow> [] | Some rs \<Rightarrow> rs))"

definition high_water :: "sys \<Rightarrow> int" where
  "high_water sw = (case db_file (snd sw) of None \<Rightarrow> 0 | Some f \<Rightarrow> autoinc_seq f)"

record enqueue_call =
  call_err :: "string option"
  call_now :: nat
  call_topic :: "string option"
  call_payload :: json
  call_qos :: "int option"
  call_retain :: "bool option"

definition enqueue :: "enqueue_call \<Rightarrow> sys \<Rightarrow> (error + unit) \<times> sys" where
  "enqueue c sw =
     addMessageToQueue (call_err c) (call_now c) (call_topic c) (call_payload c) (call_qos c)
       (call_retain c) sw"

fun enqueue_all :: "enqueue_call list \<Rightarrow> sys \<Rightarrow> error + sys" where
  "enqueue_all [] sw = Inr sw"
| "enqueue_all (c # cs) sw =
     (case enqueue c sw of (Inl e, sw') \<Rightarrow> Inl e | (Inr u, sw') \<Rightarrow> enqueue_all cs sw')"

definition row_fields :: "row \<Rightarrow> string \<times> string \<times> int \<times> int \<times> nat" where
  "row_fields r = (topic r, payload r, qos r, retain r, timestamp r)"

definition call_fields :: "enqueue_call \<Rightarrow> string \<times> string \<times> int \<times> int \<times> nat" where
  "call_fields c =
     ((case call_topic c of None \<Rightarrow> [] | Some t \<Rightarrow> t),
      stringify (call_payload c),
      (case call_qos c of None \<Rightarrow> 0 | Some q \<Rightarrow> q),
      (if (case call_retain c of None \<Rightarrow> False | Some r \<Rightarrow> r) then 1 else 0),
      call_now c)"

datatype op =
    Initialize init_env
  | GetQueueLength "string option"
  | AddMessage enqueue_call
  | RemoveOldest "string option"
  | GetMessages "string option" "int option"
  | RemoveMessages "string option" "int list"
  | RemoveMessage "string option" int
  | CloseDatabase "string option"

fun perform :: "op \<Rightarrow> sys \<Rightarrow> sys" where
  "perform (Initialize e) sw = snd (initializeDatabase e sw)"
| "perform (GetQueueLength err) sw = snd (getQueueLength err sw)"
| "perform (AddMessage c) sw = snd (enqueue c sw)"
| "perform (RemoveOldest err) sw = snd (removeOldestMessage err sw)"
| "perform (GetMessages err lim) sw = snd (getMessagesFromQueue err lim sw)"
| "perform (RemoveMessages err ids) sw = snd (removeMessagesFromQueue err ids sw)"
| "perform (RemoveMessage err i) sw = snd (removeMessageFromQueue err i sw)"
| "perform (CloseDatabase err) sw = snd (closeDatabase err sw)"

definition new_ids :: "sys \<Rightarrow> sys \<Rightarrow> int list" where
  "new_ids sw sw' = filter (\<lambda>i. i \<notin> set (map rowid (pending sw))) (map rowid (pending sw'))"

fun ids_assigned :: "op list \<Rightarrow> sys \<Rightarrow> int list" where
  "ids_assigned [] sw = []"
| "ids_assigned (a # as) sw = new_ids sw (perform a sw) @ ids_assigned as (perform a sw)"

definition table_inv :: "sys \<Rightarrow> bool" where
  "table_inv sw \<longleftrightarrow>
     sorted_wrt (<) (map rowid (pending sw)) \<and> list_all (\<lambda>r. rowid r \<le> high_water sw) (pending sw)"

definition table_open :: "sys \<Rightarrow> bool" where
  "table_open sw \<longleftrightarrow>
     db (fst sw) = Some (Database True) \<and>
     (case db_file (snd sw) of None \<Rightarrow> False | Some f \<Rightarrow> tbl f \<noteq> None)"

text \<open>
  Every method either leaves a sublist of the table and the sequence entry as it was, or
  appends one row whose identifier is the new sequence entry.
\<close>

definition keeps :: "sys \<Rightarrow> sys \<Rightarrow> bool" where
  "keeps sw sw' \<longleftrightarrow> (\<exists>P. pending sw' = filter P (pending sw)) \<and> high_water sw' = high_water sw"

definition appends :: "sys \<Rightarrow> sys \<Rightarrow> bool" where
  "appends sw sw' \<longleftrightarrow>
     (\<exists>r. pending sw' = pending sw @ [r] \<and> rowid r = high_water sw') \<and>
     high_water sw < high_water sw' \<and> (\<forall>x \<in> set (pending sw). rowid x < high_water sw')"

subsection \<open>Example states\<close>

text \<open>
  Concrete environments, stores and tables on which the theorems below are instantiated.
\<close>

definition ok_env :: init_env where
  "ok_env = \<lparr>mkdir_err = None, open_err = None, schema_err = None\<rparr>"

definition fresh_world :: world where
  "fresh_world = \<lparr>dir_exists = False, db_file = None, calls = []\<rparr>"

definition open_store :: "string \<Rightarrow> store" where
  "open_store b = \<lparr>brokerId = b, db = Some (Database True), dbInitialized = True\<rparr>"

definition world_of :: "row list \<Rightarrow> int \<Rightarrow> world" where
  "world_of rs n = \<lparr>dir_exists = True, db_file = Some \<lparr>tbl = Some rs, autoinc_seq = n\<rparr>, calls = []\<rparr>"

definition msg :: "int \<Rightarrow> string \<Rightarrow> row" where
  "msg i t = \<lparr>rowid = i, topic = t, payload = ''null'', qos = 0, retain = 0, timestamp = 0\<rparr>"

fun many_rows :: "nat \<Rightarrow> row list" where
  "many_rows 0 = []"
| "many_rows (Suc n) = many_rows n @ [msg (int (Suc n)) ''t'']"

fun id_range :: "nat \<Rightarrow> int list" where
  "id_range 0 = []"
| "id_range (Suc n) = id_range n @ [int (Suc n)]"

definition schema_fails :: init_env where
  "schema_fails = \<lparr>mkdir_err = None, open_err = None, schema_err = Some ''SQLITE_BUSY: database is locked''\<rparr>"

definition two_calls :: "enqueue_call list" where
  "two_calls =
     [\<lparr>call_err = None, call_now = 3, call_topic = Some ''b'', call_payload = JBool True,
       call_qos = Some 1, call_retain = Some True\<rparr>,
      \<lparr>call_err = None, call_now = 4, call_topic = Some ''c'', call_payload = JNum (- 7),
       call_qos = None, call_retain = None\<rparr>]"

definition three_enqueues :: "op list" where
  "three_enqueues =
     [Initialize ok_env,
      AddMessage \<lparr>call_err = None, call_now = 0, call_topic = Some ''a'', call_payload = JNull,
                  call_qos = None, call_retain = None\<rparr>,
      AddMessage \<lparr>call_err = None, call_now = 0, call_topic = Some ''b'', call_payload = JNull,
                  call_qos = None, call_retain = None\<rparr>,
      RemoveOldest None, RemoveMessage None 2, CloseDatabase None, Initialize ok_env,
      AddMessage \<lparr>call_err = None, call_now = 0, call_topic = Some ''c'', call_payload = JNull,
                  call_qos = None, call_retain = None\<rparr>]"

subsection \<open>Characters that delimit a value\<close>



section \<open>Properties\<close>

lemmas method_defs = addMessageToQueue_def removeOldestMessage_def removeMessageFromQueue_def
  getQueueLength_def getMessagesFromQueue_def removeMessagesFromQueue_def closeDatabase_def
  initializeDatabase_def run_delete_def sqlite_table_def logcall_def

lemmas example_defs = ok_env_def fresh_world_def open_store_def world_of_def msg_def
  new_SQLiteQueueManager_def empty_dbfile_def sql_create_table_def

subsection \<open>JavaScript numbers\<close>

text \<open>
  The conversion of an integer to the nearest double is monotone, and exact up to
  \<open>2^53\<close> in magnitude.
\<close>

lemma ulp_small: "m < 9007199254740992 \<Longrightarrow> ulp m = 1"
  by (simp add: ulp.simps)

lemma ulp_large: "\<not> m < 9007199254740992 \<Longrightarrow> ulp m = 2 * ulp (m div 2)"
  by (simp add: ulp.simps [of m])

lemma ulp_pos: "0 < ulp m"
  by (induction m rule: ulp.induct) (simp add: ulp.simps)

lemma ulp_power: "\<exists>k. ulp m = 2 ^ k"
proof (induction m rule: ulp.induct)
  case (1 m)
  show ?case
  proof (cases "m < 9007199254740992")
    case True
    then have "ulp m = 2 ^ 0" by (simp add: ulp_small)
    then show ?thesis by blast
  next
    case False
    from 1 [OF False] obtain k where "ulp (m div 2) = 2 ^ k" by blast
    then have "ulp m = 2 ^ Suc k" using False by (simp add: ulp_large)
    then show ?thesis by blast
  qed
qed

lemma ulp_upper: "m < 9007199254740992 * ulp m"
proof (induction m rule: ulp.induct)
  case (1 m)
  show ?case
  proof (cases "m < 9007199254740992")
    case True
    then show ?thesis by (simp add: ulp_small)
  next
    case False
    from 1 [OF False] have "m div 2 < 9007199254740992 * ulp (m div 2)" .
    then have "m < 2 * (9007199254740992 * ulp (m div 2))" by linarith
    then show ?thesis using False by (simp add: ulp_large)
  qed
qed

lemma ulp_lower: "\<not> m < 9007199254740992 \<Longrightarrow> 4503599627370496 * ulp m \<le> m"
proof (induction m rule: ulp.induct)
  case (1 m)
  show ?case
  proof (cases "m div 2 < 9007199254740992")
    case True
    then have "ulp m = 2" using 1(2) by (simp add: ulp_large ulp_small)
    then show ?thesis using 1(2) by simp
  next
    case False
    from 1(1) [OF 1(2) False] have "4503599627370496 * ulp (m div 2) \<le> m div 2" .
    then have "2 * (4503599627370496 * ulp (m div 2)) \<le> m" by linarith
    then show ?thesis using 1(2) by (simp add: ulp_large)
  qed
qed

lemma ulp_mono: "m \<le> m' \<Longrightarrow> ulp m \<le> ulp m'"
proof (induction m arbitrary: m' rule: ulp.induct)
  case (1 m)
  show ?case
  proof (cases "m < 9007199254740992")
    case True
    then show ?thesis using ulp_pos [of m'] by (simp add: ulp_small)
  next
    case False
    with 1(2) have m': "\<not> m' < 9007199254740992" by simp
    have "m div 2 \<le> m' div 2" using 1(2) by (rule div_le_mono)
    from 1(1) [OF False this] show ?thesis
      using False m' by (simp add: ulp_large)
  qed
qed

lemma ulp_double: "ulp m < ulp m' \<Longrightarrow> 2 * ulp m \<le> ulp m'"
proof -
  assume l: "ulp m < ulp m'"
  obtain k k' where k: "ulp m = 2 ^ k" "ulp m' = 2 ^ k'"
    using ulp_power [of m] ulp_power [of m'] by blast
  with l have "(2::nat) ^ k < 2 ^ k'" by simp
  then have "k < k'" by simp
  then have "Suc k \<le> k'" by simp
  then have "(2::nat) ^ Suc k \<le> 2 ^ k'" by (rule power_increasing) simp
  with k show ?thesis by simp
qed

lemma round_nat_ge: "(m div ulp m) * ulp m \<le> round_nat m"
  by (simp add: round_nat_def Let_def)

lemma round_nat_le: "round_nat m \<le> (m div ulp m + 1) * ulp m"
  by (simp add: round_nat_def Let_def)

lemma round_nat_down:
  "\<not> (ulp m < 2 * (m mod ulp m) \<or> (2 * (m mod ulp m) = ulp m \<and> odd (m div ulp m)))
     \<Longrightarrow> round_nat m = (m div ulp m) * ulp m"
  unfolding round_nat_def Let_def by (simp only: if_False)

lemma round_nat_up:
  "ulp m < 2 * (m mod ulp m) \<or> (2 * (m mod ulp m) = ulp m \<and> odd (m div ulp m))
     \<Longrightarrow> round_nat m = (m div ulp m + 1) * ulp m"
  unfolding round_nat_def Let_def by (simp only: if_True)

lemma round_nat_same_ulp:
  assumes "m \<le> m'" and "ulp m = ulp m'"
  shows "round_nat m \<le> round_nat m'"
proof -
  let ?e = "ulp m"
  have e: "0 < ?e" by (rule ulp_pos)
  have q: "m div ?e \<le> m' div ?e" using assms(1) by (rule div_le_mono)
  show ?thesis
  proof (cases "m div ?e = m' div ?e")
    case True
    have "m = (m div ?e) * ?e + m mod ?e" "m' = (m' div ?e) * ?e + m' mod ?e" by simp_all
    with True assms(1) have r: "m mod ?e \<le> m' mod ?e"
      by (metis add_le_cancel_left)
    have up: "?e < 2 * (m' mod ?e) \<or> (2 * (m' mod ?e) = ?e \<and> odd (m' div ?e))"
      if "?e < 2 * (m mod ?e) \<or> (2 * (m mod ?e) = ?e \<and> odd (m div ?e))"
      using that r True by auto
    show ?thesis
    proof (cases "?e < 2 * (m mod ?e) \<or> (2 * (m mod ?e) = ?e \<and> odd (m div ?e))")
      case up_m: True
      have "round_nat m = (m div ?e + 1) * ?e" using up_m by (rule round_nat_up)
      moreover have "round_nat m' = (m' div ?e + 1) * ?e"
        using up [OF up_m] round_nat_up [of m'] assms(2) by simp
      ultimately show ?thesis using True by simp
    next
      case False
      then have "round_nat m = (m div ?e) * ?e" by (rule round_nat_down)
      with True round_nat_ge [of m'] assms(2) show ?thesis by simp
    qed
  next
    case False
    with q have "m div ?e + 1 \<le> m' div ?e" by simp
    then have "(m div ?e + 1) * ?e \<le> (m' div ?e) * ?e" by (rule mult_le_mono1)
    moreover have "round_nat m \<le> (m div ?e + 1) * ?e" by (rule round_nat_le)
    moreover have "(m' div ?e) * ?e \<le> round_nat m'" using round_nat_ge [of m'] assms(2) by simp
    ultimately show ?thesis by linarith
  qed
qed

lemma round_nat_mono: "m \<le> m' \<Longrightarrow> round_nat m \<le> round_nat m'"
proof -
  assume le: "m \<le> m'"
  show ?thesis
  proof (cases "ulp m = ulp m'")
    case True
    with le show ?thesis by (rule round_nat_same_ulp)
  next
    case False
    with ulp_mono [OF le] have lt: "ulp m < ulp m'" by simp
    then have d: "2 * ulp m \<le> ulp m'" by (rule ulp_double)
    have "1 < ulp m'" using lt ulp_pos [of m] by simp
    then have big: "\<not> m' < 9007199254740992" using ulp_small [of m'] by auto
    have "m div ulp m < 9007199254740992"
      using ulp_upper [of m] ulp_pos [of m] by (simp add: div_less_iff_less_mult mult.commute)
    then have "m div ulp m + 1 \<le> 9007199254740992" by simp
    then have "(m div ulp m + 1) * ulp m \<le> 9007199254740992 * ulp m" by (rule mult_le_mono1)
    with round_nat_le [of m] have a: "round_nat m \<le> 9007199254740992 * ulp m" by (rule le_trans)
    have "4503599627370496 * ulp m' \<le> m'" using big by (rule ulp_lower)
    then have "4503599627370496 \<le> m' div ulp m'"
      using ulp_pos [of m'] by (simp add: less_eq_div_iff_mult_less_eq)
    then have "4503599627370496 * ulp m' \<le> (m' div ulp m') * ulp m'" by (rule mult_le_mono1)
    from this round_nat_ge [of m'] have b: "4503599627370496 * ulp m' \<le> round_nat m'"
      by (rule le_trans)
    from d have "9007199254740992 * ulp m \<le> 4503599627370496 * ulp m'" by simp
    with a b show ?thesis by linarith
  qed
qed

lemma round_nat_exact: "m \<le> 9007199254740992 \<Longrightarrow> round_nat m = m"
proof (cases "m < 9007199254740992")
  case True
  then show ?thesis by (simp add: round_nat_def ulp_small)
next
  case False
  assume "m \<le> 9007199254740992"
  with False have "m = 9007199254740992" by simp
  then show ?thesis by (simp add: round_nat_def Let_def ulp.simps)
qed

lemma js_number_mono: "n \<le> n' \<Longrightarrow> js_number n \<le> js_number n'"
proof -
  assume le: "n \<le> n'"
  show ?thesis
  proof (cases "n < 0")
    case True
    show ?thesis
    proof (cases "n' < 0")
      case n': True
      from le have "nat (- n') \<le> nat (- n)" by simp
      from round_nat_mono [OF this] True n' show ?thesis by (simp add: js_number_def)
    next
      case False
      with True show ?thesis by (simp add: js_number_def)
    qed
  next
    case False
    with le have n': "\<not> n' < 0" by simp
    from le have "nat n \<le> nat n'" by simp
    from round_nat_mono [OF this] False n' show ?thesis by (simp add: js_number_def)
  qed
qed

lemma js_number_exact: "\<bar>n\<bar> \<le> 9007199254740992 \<Longrightarrow> js_number n = n"
proof -
  assume a: "\<bar>n\<bar> \<le> 9007199254740992"
  show ?thesis
  proof (cases "n < 0")
    case True
    with a have "nat (- n) \<le> 9007199254740992" by simp
    from round_nat_exact [OF this] True show ?thesis by (simp add: js_number_def)
  next
    case False
    with a have "nat n \<le> 9007199254740992" by simp
    from round_nat_exact [OF this] False show ?thesis by (simp add: js_number_def)
  qed
qed

lemma sorted_js_numbers:
  "sorted_wrt (<) (xs :: int list) \<Longrightarrow> sorted_wrt (\<le>) (map js_number xs)"
proof -
  assume "sorted_wrt (<) xs"
  then have "sorted_wrt (\<lambda>a b. js_number a \<le> js_number b) xs"
    by (rule sorted_wrt_mono_rel [rotated]) (simp add: js_number_mono)
  then show ?thesis by (simp add: sorted_wrt_map)
qed

lemma rowid_js_row: "rowid (js_row r) = js_number (rowid r)"
  by (simp add: js_row_def)

subsection \<open>Stores without a handle\<close>

lemma close_ok_db: "closeDatabase err (s0, w0) = (Inr (), s, w) \<Longrightarrow> db s = None"
  by (auto simp: closeDatabase_def split: option.splits database.splits if_splits)

text \<open>
  Claim C4. On a store that was never initialized or that was closed, \<open>enqueue\<close>,
  \<open>removeOldest\<close> and \<open>removeById\<close> fail with \<open>NotInitialized\<close>, while \<open>length\<close> and
  \<open>list\<close> answer 0 and the empty sequence; nothing is called and nothing changes.
\<close>

theorem uninitialized_store:
  assumes "s = new_SQLiteQueueManager b \<or> closeDatabase cerr (s0, w0) = (Inr (), s, w1)"
  shows "addMessageToQueue err now tpc pl q r (s, w) = (Inl NotInitialized, s, w) \<and>
         removeOldestMessage err (s, w) = (Inl NotInitialized, s, w) \<and>
         removeMessageFromQueue err i (s, w) = (Inl NotInitialized, s, w) \<and>
         getQueueLength err (s, w) = (Inr 0, s, w) \<and>
         getMessagesFromQueue err lim (s, w) = (Inr [], s, w)"
proof -
  have "db s = None"
    using assms close_ok_db by (auto simp: new_SQLiteQueueManager_def)
  then show ?thesis
    by (simp add: method_defs)
qed

theorem uninitialized_store_witness:
  "closeDatabase None (open_store ''b1'', world_of [msg 1 ''a''] 1)
     = (Inr (), new_SQLiteQueueManager ''b1'', logcall DbClose (world_of [msg 1 ''a''] 1)) \<and>
   addMessageToQueue None 0 (Some ''a'') JNull None None
       (new_SQLiteQueueManager ''b1'', logcall DbClose (world_of [msg 1 ''a''] 1))
     = (Inl NotInitialized, new_SQLiteQueueManager ''b1'', logcall DbClose (world_of [msg 1 ''a''] 1)) \<and>
   removeOldestMessage None (new_SQLiteQueueManager ''b1'', logcall DbClose (world_of [msg 1 ''a''] 1))
     = (Inl NotInitialized, new_SQLiteQueueManager ''b1'', logcall DbClose (world_of [msg 1 ''a''] 1)) \<and>
   removeMessageFromQueue None 1 (new_SQLiteQueueManager ''b1'', logcall DbClose (world_of [msg 1 ''a''] 1))
     = (Inl NotInitialized, new_SQLiteQueueManager ''b1'', logcall DbClose (world_of [msg 1 ''a''] 1)) \<and>
   getQueueLength None (new_SQLiteQueueManager ''b1'', logcall DbClose (world_of [msg 1 ''a''] 1))
     = (Inr 0, new_SQLiteQueueManager ''b1'', logcall DbClose (world_of [msg 1 ''a''] 1)) \<and>
   getMessagesFromQueue None None (new_SQLiteQueueManager ''b1'', logcall DbClose (world_of [msg 1 ''a''] 1))
     = (Inr [], new_SQLiteQueueManager ''b1'', logcall DbClose (world_of [msg 1 ''a''] 1))"
proof -
  have c: "closeDatabase None (open_store ''b1'', world_of [msg 1 ''a''] 1)
     = (Inr (), new_SQLiteQueueManager ''b1'', logcall DbClose (world_of [msg 1 ''a''] 1))"
    by (simp add: closeDatabase_def example_defs)
  show ?thesis
    using c uninitialized_store [OF disjI2 [OF c], of None 0 "Some ''a''" JNull None None
        "logcall DbClose (world_of [msg 1 ''a''] 1)" 1 None]
    by simp
qed

text \<open>
  Claim C9. On an initialized store \<open>initialize\<close> returns the handle the store holds and
  leaves the object, the directory, the file and the log of calls as they were: no
  \<open>mkdirSync\<close>, no new \<open>Database\<close>, no schema statement.
\<close>

theorem initialize_idempotent:
  "dbInitialized s \<Longrightarrow> db s = Some h \<Longrightarrow> initializeDatabase e (s, w) = (Inr h, s, w)"
  by (simp add: initializeDatabase_def)

theorem initialize_idempotent_witness:
  "initializeDatabase ok_env (new_SQLiteQueueManager ''b1'', fresh_world)
     = (Inr (Database True), open_store ''b1'',
        \<lparr>dir_exists = True, db_file = Some \<lparr>tbl = Some [], autoinc_seq = 0\<rparr>,
         calls = [MkdirSync, NewDatabase, DbRun]\<rparr>) \<and>
   initializeDatabase ok_env (open_store ''b1'',
        \<lparr>dir_exists = True, db_file = Some \<lparr>tbl = Some [], autoinc_seq = 0\<rparr>,
         calls = [MkdirSync, NewDatabase, DbRun]\<rparr>)
     = (Inr (Database True), open_store ''b1'',
        \<lparr>dir_exists = True, db_file = Some \<lparr>tbl = Some [], autoinc_seq = 0\<rparr>,
         calls = [MkdirSync, NewDatabase, DbRun]\<rparr>)"
  using initialize_idempotent [of "open_store ''b1''" "Database True" ok_env
      "\<lparr>dir_exists = True, db_file = Some \<lparr>tbl = Some [], autoinc_seq = 0\<rparr>,
         calls = [MkdirSync, NewDatabase, DbRun]\<rparr>"]
  by (simp add: initializeDatabase_def logcall_def example_defs)

subsection \<open>Which calls fail with \<open>NotInitialized\<close>\<close>

lemma run_delete_not_NotInitialized: "run_delete h err nvars del w \<noteq> (Inl NotInitialized, w')"
  by (cases h) (simp add: run_delete_def sqlite_table_def split: option.splits)

lemma sql_insert_not_NotInitialized: "sql_insert now t p q r f rs \<noteq> Inl NotInitialized"
  by (simp add: sql_insert_def Let_def split: option.splits)

lemma add_NotInitialized_iff:
  "fst (addMessageToQueue err now tpc pl q r (s, w)) = Inl NotInitialized \<longleftrightarrow> db s = None"
proof (cases "db s")
  case None
  then show ?thesis by (simp add: addMessageToQueue_def)
next
  case (Some h)
  obtain opened where h: "h = Database opened" by (cases h)
  show ?thesis
    using Some h sql_insert_not_NotInitialized
    by (auto simp: addMessageToQueue_def sqlite_table_def Let_def split: option.splits sum.splits)
qed

lemma removeOldest_NotInitialized_iff:
  "fst (removeOldestMessage err (s, w)) = Inl NotInitialized \<longleftrightarrow> db s = None"
  by (cases "db s") (auto simp: removeOldestMessage_def run_delete_not_NotInitialized split: prod.splits)

lemma removeMessage_NotInitialized_iff:
  "fst (removeMessageFromQueue err i (s, w)) = Inl NotInitialized \<longleftrightarrow> db s = None"
  by (cases "db s") (auto simp: removeMessageFromQueue_def run_delete_not_NotInitialized split: prod.splits)

lemma initialize_schema_failure:
  assumes "\<not> dbInitialized s" and "dir_exists w \<or> mkdir_err e = None"
    and "open_err e = None" and "schema_err e = Some m"
  shows "fst (initializeDatabase e (s, w)) = Inl (SqliteError m)"
    and "db (fst (snd (initializeDatabase e (s, w)))) = Some (Database True)"
    and "\<not> dbInitialized (fst (snd (initializeDatabase e (s, w))))"
  using assms by (auto simp: initializeDatabase_def Let_def)

text \<open>
  Claim C10. \<open>enqueue\<close>, \<open>removeOldest\<close> and \<open>removeById\<close> fail with \<open>NotInitialized\<close>
  exactly when the handle \<open>db\<close> is null, whatever \<open>dbInitialized\<close> says. An
  \<open>initialize\<close> whose schema statement fails has already assigned the handle and leaves
  the flag false; an \<open>enqueue\<close> after it does not fail with \<open>NotInitialized\<close>.
\<close>

theorem not_initialized_iff_null_handle:
  "(fst (addMessageToQueue err now tpc pl q r (s, w)) = Inl NotInitialized \<longleftrightarrow> db s = None) \<and>
   (fst (removeOldestMessage err (s, w)) = Inl NotInitialized \<longleftrightarrow> db s = None) \<and>
   (fst (removeMessageFromQueue err i (s, w)) = Inl NotInitialized \<longleftrightarrow> db s = None) \<and>
   (\<not> dbInitialized s \<and> (dir_exists w \<or> mkdir_err e = None) \<and> open_err e = None \<and>
      schema_err e = Some m \<longrightarrow>
        fst (initializeDatabase e (s, w)) = Inl (SqliteError m) \<and>
        db (fst (snd (initializeDatabase e (s, w)))) \<noteq> None \<and>
        \<not> dbInitialized (fst (snd (initializeDatabase e (s, w)))) \<and>
        fst (addMessageToQueue err now tpc pl q r (snd (initializeDatabase e (s, w))))
          \<noteq> Inl NotInitialized)"
proof -
  have "fst (addMessageToQueue err now tpc pl q r (snd (initializeDatabase e (s, w))))
          \<noteq> Inl NotInitialized"
    if "\<not> dbInitialized s" "dir_exists w \<or> mkdir_err e = None" "open_err e = None"
      "schema_err e = Some m"
  proof -
    obtain s' w' where sw: "snd (initializeDatabase e (s, w)) = (s', w')"
      by (cases "snd (initializeDatabase e (s, w))")
    have "db s' = Some (Database True)"
      using initialize_schema_failure(2) [OF that] sw by simp
    then show ?thesis
      using add_NotInitialized_iff [of err now tpc pl q r s' w'] sw by simp
  qed
  then show ?thesis
    using add_NotInitialized_iff removeOldest_NotInitialized_iff removeMessage_NotInitialized_iff
      initialize_schema_failure
    by simp
qed

theorem not_initialized_iff_null_handle_witness:
  "initializeDatabase schema_fails (new_SQLiteQueueManager ''b1'', fresh_world)
     = (Inl (SqliteError ''SQLITE_BUSY: database is locked''),
        \<lparr>brokerId = ''b1'', db = Some (Database True), dbInitialized = False\<rparr>,
        \<lparr>dir_exists = True, db_file = Some empty_dbfile, calls = [MkdirSync, NewDatabase, DbRun]\<rparr>) \<and>
   fst (addMessageToQueue None 0 (Some ''a'') JNull None None
          (snd (initializeDatabase schema_fails (new_SQLiteQueueManager ''b1'', fresh_world))))
     \<noteq> Inl NotInitialized \<and>
   addMessageToQueue None 0 (Some ''a'') JNull None None
      (\<lparr>brokerId = ''b1'', db = Some (Database True), dbInitialized = False\<rparr>,
       \<lparr>dir_exists = True, db_file = Some empty_dbfile, calls = [MkdirSync, NewDatabase, DbRun]\<rparr>)
     = (Inl (SqliteError ''SQLITE_ERROR: no such table: message_queue''),
        \<lparr>brokerId = ''b1'', db = Some (Database True), dbInitialized = False\<rparr>,
        \<lparr>dir_exists = True, db_file = Some empty_dbfile,
         calls = [MkdirSync, NewDatabase, DbRun, DbRun]\<rparr>)"
proof -
  have i: "initializeDatabase schema_fails (new_SQLiteQueueManager ''b1'', fresh_world)
     = (Inl (SqliteError ''SQLITE_BUSY: database is locked''),
        \<lparr>brokerId = ''b1'', db = Some (Database True), dbInitialized = False\<rparr>,
        \<lparr>dir_exists = True, db_file = Some empty_dbfile, calls = [MkdirSync, NewDatabase, DbRun]\<rparr>)"
    by (simp add: initializeDatabase_def logcall_def schema_fails_def example_defs)
  have a: "addMessageToQueue None 0 (Some ''a'') JNull None None
      (\<lparr>brokerId = ''b1'', db = Some (Database True), dbInitialized = False\<rparr>,
       \<lparr>dir_exists = True, db_file = Some empty_dbfile, calls = [MkdirSync, NewDatabase, DbRun]\<rparr>)
     = (Inl (SqliteError ''SQLITE_ERROR: no such table: message_queue''),
        \<lparr>brokerId = ''b1'', db = Some (Database True), dbInitialized = False\<rparr>,
        \<lparr>dir_exists = True, db_file = Some empty_dbfile,
         calls = [MkdirSync, NewDatabase, DbRun, DbRun]\<rparr>)"
    by (simp add: addMessageToQueue_def sqlite_table_def logcall_def empty_dbfile_def)
  have "fst (addMessageToQueue None 0 (Some ''a'') JNull None None
          (snd (initializeDatabase schema_fails (new_SQLiteQueueManager ''b1'', fresh_world))))
     \<noteq> Inl NotInitialized"
    using not_initialized_iff_null_handle [of None 0 "Some ''a''" JNull None None
        "new_SQLiteQueueManager ''b1''" fresh_world 0 schema_fails "''SQLITE_BUSY: database is locked''"]
    by (simp add: schema_fails_def example_defs)
  with i a show ?thesis by simp
qed

subsection \<open>Arguments that are passed on unchecked\<close>

lemma length_many_rows: "length (many_rows n) = n"
  by (induction n) simp_all

text \<open>
  Claim C7 says that an \<open>enqueue\<close> with the empty string as topic stores no row. On an
  initialized empty queue it succeeds and stores the row with identifier 1 and the empty
  topic.
\<close>

theorem empty_topic_counterexample:
  "addMessageToQueue None 0 (Some '''') JNull None None (open_store ''b1'', world_of [] 0)
     = (Inr (), open_store ''b1'',
        \<lparr>dir_exists = True, db_file = Some \<lparr>tbl = Some [msg 1 ''''], autoinc_seq = 1\<rparr>,
         calls = [DbRun]\<rparr>)"
  by (simp add: addMessageToQueue_def sqlite_table_def sql_insert_def largest_rowid_def
      max_rowid_def logcall_def example_defs)

text \<open>
  Claim C7, amended. The topic has to be non-null, not non-empty: on an initialized store
  whose engine call does not fail, a null topic is refused by the \<open>NOT NULL\<close> constraint
  and the table is as before, while every string \<open>t\<close>, the empty one included, is stored
  as a new row with topic \<open>t\<close>.
\<close>

theorem topic_not_null:
  assumes "db s = Some (Database True)" and "db_file w = Some f" and "tbl f = Some rs"
    and "largest_rowid f rs < max_rowid"
  shows "addMessageToQueue None now None pl q r (s, w)
           = (Inl (SqliteError ''SQLITE_CONSTRAINT: NOT NULL constraint failed: message_queue.topic''),
              s, logcall DbRun w) \<and>
         pending (snd (addMessageToQueue None now None pl q r (s, w))) = rs \<and>
         fst (addMessageToQueue None now (Some t) pl q r (s, w)) = Inr () \<and>
         pending (snd (addMessageToQueue None now (Some t) pl q r (s, w)))
           = insort_key rowid
               \<lparr>rowid = largest_rowid f rs + 1, topic = t, payload = stringify pl,
                qos = (case q of None \<Rightarrow> 0 | Some q' \<Rightarrow> q'),
                retain = (if (case r of None \<Rightarrow> False | Some r' \<Rightarrow> r') then 1 else 0),
                timestamp = now\<rparr> rs"
  using assms
  by (simp add: addMessageToQueue_def sqlite_table_def sql_insert_def pending_def logcall_def
      Let_def)

theorem topic_not_null_witness:
  "addMessageToQueue None 0 None JNull None None (open_store ''b1'', world_of [] 0)
     = (Inl (SqliteError ''SQLITE_CONSTRAINT: NOT NULL constraint failed: message_queue.topic''),
        open_store ''b1'', logcall DbRun (world_of [] 0)) \<and>
   fst (addMessageToQueue None 0 (Some '''') JNull None None (open_store ''b1'', world_of [] 0)) = Inr () \<and>
   pending (snd (addMessageToQueue None 0 (Some '''') JNull None None (open_store ''b1'', world_of [] 0)))
     = [msg 1 '''']"
  using topic_not_null [of "open_store ''b1''" "world_of [] 0" "\<lparr>tbl = Some [], autoinc_seq = 0\<rparr>" "[]"
      0 JNull None None "''''"]
  by (simp add: largest_rowid_def max_rowid_def example_defs)

text \<open>
  Claim C8 says that a limit \<open>\<le> 0\<close> never yields more rows than the default bound of
  500. With 501 pending messages, \<open>list(-1)\<close> returns all 501.
\<close>

theorem negative_limit_counterexample:
  "fst (getMessagesFromQueue None (Some (- 1)) (open_store ''b1'', world_of (many_rows 501) 501))
     = Inr (map js_row (many_rows 501)) \<and> \<not> length (map js_row (many_rows 501)) \<le> 500"
  by (simp add: getMessagesFromQueue_def sqlite_table_def sql_select_limit_def length_many_rows
      world_of_def open_store_def del: many_rows.simps)

text \<open>
  Claim C8, amended. The limit is handed to the engine as it is. On an initialized store
  whose engine call does not fail, \<open>list(0)\<close> returns the empty sequence, \<open>list\<close> with a
  negative integer limit above \<open>-2^63\<close> returns every pending message, however many there
  are, and a limit of \<open>-2^63\<close> or below is rejected with the engine's datatype mismatch.
\<close>

theorem nonpositive_limit:
  assumes "db s = Some (Database True)" and "db_file w = Some f" and "tbl f = Some rs"
    and "lim \<le> 0"
  shows "getMessagesFromQueue None (Some lim) (s, w)
           = (if lim \<le> - 9223372036854775808
              then Inl (SqliteError ''SQLITE_MISMATCH: datatype mismatch'')
              else Inr (if lim = 0 then [] else map js_row rs),
              s, logcall DbAll w)"
  using assms
  by (simp add: getMessagesFromQueue_def sqlite_table_def sql_select_limit_def)

theorem nonpositive_limit_witness:
  "getMessagesFromQueue None (Some 0) (open_store ''b1'', world_of [msg 1 ''a'', msg 2 ''b''] 2)
     = (Inr [], open_store ''b1'', logcall DbAll (world_of [msg 1 ''a'', msg 2 ''b''] 2)) \<and>
   getMessagesFromQueue None (Some (- 5)) (open_store ''b1'', world_of [msg 1 ''a'', msg 2 ''b''] 2)
     = (Inr [msg 1 ''a'', msg 2 ''b''], open_store ''b1'',
        logcall DbAll (world_of [msg 1 ''a'', msg 2 ''b''] 2)) \<and>
   getMessagesFromQueue None (Some (- 10000000000000000000))
       (open_store ''b1'', world_of [msg 1 ''a'', msg 2 ''b''] 2)
     = (Inl (SqliteError ''SQLITE_MISMATCH: datatype mismatch''), open_store ''b1'',
        logcall DbAll (world_of [msg 1 ''a'', msg 2 ''b''] 2))"
  using nonpositive_limit [of "open_store ''b1''" "world_of [msg 1 ''a'', msg 2 ''b''] 2"
        "\<lparr>tbl = Some [msg 1 ''a'', msg 2 ''b''], autoinc_seq = 2\<rparr>" "[msg 1 ''a'', msg 2 ''b'']" 0]
      nonpositive_limit [of "open_store ''b1''" "world_of [msg 1 ''a'', msg 2 ''b''] 2"
        "\<lparr>tbl = Some [msg 1 ''a'', msg 2 ''b''], autoinc_seq = 2\<rparr>" "[msg 1 ''a'', msg 2 ''b'']" "- 5"]
      nonpositive_limit [of "open_store ''b1''" "world_of [msg 1 ''a'', msg 2 ''b''] 2"
        "\<lparr>tbl = Some [msg 1 ''a'', msg 2 ''b''], autoinc_seq = 2\<rparr>" "[msg 1 ''a'', msg 2 ''b'']"
        "- 10000000000000000000"]
  by (simp add: world_of_def open_store_def msg_def js_row_def js_number_exact)

subsection \<open>Deleting rows\<close>

lemma fold_min_least: "\<forall>x \<in> set xs. a < x \<Longrightarrow> fold min xs (a::int) = a"
  by (induction xs) simp_all

lemma sql_min_id_sorted:
  "sorted_wrt (<) (map rowid (r # rs)) \<Longrightarrow> sql_min_id (r # rs) = Some (rowid r)"
  by (simp add: sql_min_id_def fold_min_least)

lemma filter_neq_least:
  "\<forall>x \<in> set rs. rowid r < rowid x \<Longrightarrow> filter (\<lambda>x. rowid x \<noteq> rowid r) rs = rs"
  by (induction rs) auto

lemma sql_delete_min_sorted:
  "sorted_wrt (<) (map rowid (r # rs)) \<Longrightarrow> sql_delete_min (r # rs) = rs"
  by (simp add: sql_delete_min_def sql_min_id_sorted filter_neq_least)

lemma sql_delete_min_Nil: "sql_delete_min [] = []"
  by (simp add: sql_delete_min_def sql_min_id_def)

text \<open>
  Claim C5. On an initialized store \<open>removeOldest\<close> succeeds. On a non-empty queue it
  deletes the one row with the smallest identifier, the other rows stay, and \<open>length\<close>
  is one less than before; on the empty queue nothing changes and \<open>length\<close> stays 0.
\<close>

theorem remove_oldest:
  assumes "db s = Some (Database True)" and "db_file w = Some f" and "tbl f = Some rs"
    and "sorted_wrt (<) (map rowid rs)"
  shows "fst (removeOldestMessage None (s, w)) = Inr () \<and>
         fst (getQueueLength None (s, w)) = Inr (int (length rs)) \<and>
         (rs = [] \<longrightarrow>
            pending (snd (removeOldestMessage None (s, w))) = [] \<and>
            fst (getQueueLength None (snd (removeOldestMessage None (s, w)))) = Inr 0) \<and>
         (\<forall>r rs'. rs = r # rs' \<longrightarrow>
            (\<forall>x \<in> set rs'. rowid r < rowid x) \<and>
            pending (snd (removeOldestMessage None (s, w))) = rs' \<and>
            fst (getQueueLength None (snd (removeOldestMessage None (s, w))))
              = Inr (int (length rs) - 1))"
proof (cases rs)
  case Nil
  with assms show ?thesis
    by (simp add: removeOldestMessage_def getQueueLength_def run_delete_def sqlite_table_def
        sql_count_def logcall_def pending_def sql_delete_min_Nil max_variable_number_def)
next
  case (Cons r rs')
  with assms have "sql_delete_min rs = rs'" and "\<forall>x \<in> set rs'. rowid r < rowid x"
    by (simp_all add: sql_delete_min_sorted)
  with assms Cons show ?thesis
    by (simp add: removeOldestMessage_def getQueueLength_def run_delete_def sqlite_table_def
        sql_count_def logcall_def pending_def max_variable_number_def)
qed

theorem remove_oldest_witness:
  "fst (removeOldestMessage None (open_store ''b1'', world_of [msg 2 ''a'', msg 5 ''b''] 7)) = Inr () \<and>
   fst (getQueueLength None (open_store ''b1'', world_of [msg 2 ''a'', msg 5 ''b''] 7)) = Inr 2 \<and>
   pending (snd (removeOldestMessage None (open_store ''b1'', world_of [msg 2 ''a'', msg 5 ''b''] 7)))
     = [msg 5 ''b''] \<and>
   fst (getQueueLength None
         (snd (removeOldestMessage None (open_store ''b1'', world_of [msg 2 ''a'', msg 5 ''b''] 7))))
     = Inr 1 \<and>
   fst (removeOldestMessage None (open_store ''b1'', world_of [] 7)) = Inr () \<and>
   pending (snd (removeOldestMessage None (open_store ''b1'', world_of [] 7))) = [] \<and>
   fst (getQueueLength None (snd (removeOldestMessage None (open_store ''b1'', world_of [] 7)))) = Inr 0"
  using remove_oldest [of "open_store ''b1''" "world_of [msg 2 ''a'', msg 5 ''b''] 7"
        "\<lparr>tbl = Some [msg 2 ''a'', msg 5 ''b''], autoinc_seq = 7\<rparr>" "[msg 2 ''a'', msg 5 ''b'']"]
    remove_oldest [of "open_store ''b1''" "world_of [] 7" "\<lparr>tbl = Some [], autoinc_seq = 7\<rparr>" "[]"]
  by (simp add: world_of_def open_store_def msg_def)

lemma length_id_range: "length (id_range n) = n"
  by (induction n) simp_all

lemma one_in_id_range: "0 < n \<Longrightarrow> 1 \<in> set (id_range n)"
  by (induction n) auto

text \<open>
  Claim C6 says that \<open>removeByIds\<close> deletes the listed messages for every set of
  identifiers. With the 32767 identifiers 1, ..., 32767 the statement has more
  placeholders than the engine takes: the call is rejected and the message with
  identifier 1 is still there.
\<close>

theorem too_many_ids_counterexample:
  "removeMessagesFromQueue None (id_range 32767) (open_store ''b1'', world_of [msg 1 ''a''] 1)
     = (Inl (SqliteError ''SQLITE_ERROR: too many SQL variables''), open_store ''b1'',
        logcall DbRun (world_of [msg 1 ''a''] 1)) \<and>
   rowid (msg 1 ''a'') \<in> set (id_range 32767) \<and>
   pending (open_store ''b1'', logcall DbRun (world_of [msg 1 ''a''] 1)) = [msg 1 ''a'']"
proof -
  have "id_range 32767 \<noteq> []"
    using length_id_range [of 32767] by (cases "id_range 32767") simp_all
  moreover have "(1::int) \<in> set (id_range 32767)"
    by (rule one_in_id_range) simp
  ultimately show ?thesis
    by (simp add: removeMessagesFromQueue_def run_delete_def sqlite_table_def pending_def
        logcall_def max_variable_number_def length_id_range world_of_def open_store_def msg_def
        del: id_range.simps)
qed

text \<open>
  Claim C6, amended. \<open>removeByIds\<close> returns without a call to the engine when the store
  has no handle or the list of identifiers is empty. On an initialized store whose engine
  call does not fail, a list of at most 32766 identifiers deletes exactly the rows whose
  identifier is in the list and keeps the others in their order, identifiers that no row
  has changing nothing; a longer list is rejected and the file is as before.
\<close>

theorem remove_by_ids:
  "(db s = None \<or> messageIds = [] \<longrightarrow>
      removeMessagesFromQueue err messageIds (s, w) = (Inr (), s, w)) \<and>
   (db s = Some (Database True) \<and> db_file w = Some f \<and> tbl f = Some rs \<and>
    length messageIds \<le> max_variable_number \<longrightarrow>
      fst (removeMessagesFromQueue None messageIds (s, w)) = Inr () \<and>
      pending (snd (removeMessagesFromQueue None messageIds (s, w)))
        = filter (\<lambda>r. rowid r \<notin> set messageIds) rs \<and>
      set (pending (snd (removeMessagesFromQueue None messageIds (s, w))))
        = {r \<in> set rs. rowid r \<notin> set messageIds}) \<and>
   (db s = Some (Database True) \<and> max_variable_number < length messageIds \<longrightarrow>
      removeMessagesFromQueue err messageIds (s, w)
        = (Inl (SqliteError ''SQLITE_ERROR: too many SQL variables''), s, logcall DbRun w))"
  by (auto simp: removeMessagesFromQueue_def run_delete_def sqlite_table_def sql_delete_in_def
      pending_def logcall_def max_variable_number_def)

theorem remove_by_ids_witness:
  "removeMessagesFromQueue None [1, 3] (new_SQLiteQueueManager ''b1'', fresh_world)
     = (Inr (), new_SQLiteQueueManager ''b1'', fresh_world) \<and>
   removeMessagesFromQueue None [] (open_store ''b1'', world_of [msg 1 ''a'', msg 2 ''b'', msg 3 ''c''] 3)
     = (Inr (), open_store ''b1'', world_of [msg 1 ''a'', msg 2 ''b'', msg 3 ''c''] 3) \<and>
   fst (removeMessagesFromQueue None [1, 3]
         (open_store ''b1'', world_of [msg 1 ''a'', msg 2 ''b'', msg 3 ''c''] 3)) = Inr () \<and>
   pending (snd (removeMessagesFromQueue None [1, 3]
         (open_store ''b1'', world_of [msg 1 ''a'', msg 2 ''b'', msg 3 ''c''] 3))) = [msg 2 ''b''] \<and>
   pending (snd (removeMessagesFromQueue None [1, 9, 4]
         (open_store ''b1'', world_of [msg 1 ''a'', msg 2 ''b'', msg 3 ''c''] 3)))
     = [msg 2 ''b'', msg 3 ''c''] \<and>
   removeMessagesFromQueue None (id_range 32767)
         (open_store ''b1'', world_of [msg 1 ''a'', msg 2 ''b'', msg 3 ''c''] 3)
     = (Inl (SqliteError ''SQLITE_ERROR: too many SQL variables''), open_store ''b1'',
        logcall DbRun (world_of [msg 1 ''a'', msg 2 ''b'', msg 3 ''c''] 3))"
  using remove_by_ids [of "new_SQLiteQueueManager ''b1''" "[1, 3]" None fresh_world]
    remove_by_ids [of "open_store ''b1''" "[]" None "world_of [msg 1 ''a'', msg 2 ''b'', msg 3 ''c''] 3"]
    remove_by_ids [of "open_store ''b1''" "[1, 3]" None "world_of [msg 1 ''a'', msg 2 ''b'', msg 3 ''c''] 3"
      "\<lparr>tbl = Some [msg 1 ''a'', msg 2 ''b'', msg 3 ''c''], autoinc_seq = 3\<rparr>"
      "[msg 1 ''a'', msg 2 ''b'', msg 3 ''c'']"]
    remove_by_ids [of "open_store ''b1''" "[1, 9, 4]" None "world_of [msg 1 ''a'', msg 2 ''b'', msg 3 ''c''] 3"
      "\<lparr>tbl = Some [msg 1 ''a'', msg 2 ''b'', msg 3 ''c''], autoinc_seq = 3\<rparr>"
      "[msg 1 ''a'', msg 2 ''b'', msg 3 ''c'']"]
    remove_by_ids [of "open_store ''b1''" "id_range 32767" None
      "world_of [msg 1 ''a'', msg 2 ''b'', msg 3 ''c''] 3"
      "\<lparr>tbl = Some [msg 1 ''a'', msg 2 ''b'', msg 3 ''c''], autoinc_seq = 3\<rparr>"
      "[msg 1 ''a'', msg 2 ''b'', msg 3 ''c'']"]
  by (simp add: world_of_def open_store_def msg_def new_SQLiteQueueManager_def
      max_variable_number_def length_id_range del: id_range.simps)

subsection \<open>The effect of each method on the table\<close>

lemma fold_max_ge: "(a::int) \<le> fold max xs a"
proof (induction xs arbitrary: a)
  case Nil
  show ?case by simp
next
  case (Cons x xs)
  have "a \<le> max x a" by simp
  also have "\<dots> \<le> fold max xs (max x a)" by (rule Cons.IH)
  finally show ?case by simp
qed

lemma fold_max_ge_elem: "x \<in> set xs \<Longrightarrow> (x::int) \<le> fold max xs a"
proof (induction xs arbitrary: a)
  case Nil
  then show ?case by simp
next
  case (Cons y ys)
  show ?case
  proof (cases "x = y")
    case True
    have "x \<le> max y a" using True by simp
    also have "\<dots> \<le> fold max ys (max y a)" by (rule fold_max_ge)
    finally show ?thesis by simp
  next
    case False
    with Cons show ?thesis by simp
  qed
qed

lemma largest_rowid_ge_seq: "autoinc_seq f \<le> largest_rowid f rs"
  by (simp add: largest_rowid_def fold_max_ge)

lemma largest_rowid_ge_row: "r \<in> set rs \<Longrightarrow> rowid r \<le> largest_rowid f rs"
  by (simp add: largest_rowid_def fold_max_ge_elem)

lemma insort_key_greatest:
  "\<forall>x \<in> set rs. rowid x < rowid r \<Longrightarrow> insort_key rowid r rs = rs @ [r]"
  by (induction rs) auto

lemma sorted_snoc:
  "sorted_wrt (<) (map rowid rs) \<Longrightarrow> \<forall>x \<in> set rs. rowid x < rowid r
     \<Longrightarrow> sorted_wrt (<) (map rowid (rs @ [r]))"
  by (simp add: sorted_wrt_append)

text \<open>What one \<open>INSERT\<close> does to the table.\<close>

lemma sql_insert_Inr:
  assumes "sql_insert now t p q r f rs = Inr f'"
  shows "\<exists>tp. t = Some tp \<and>
           tbl f' = Some (rs @ [\<lparr>rowid = largest_rowid f rs + 1, topic = tp, payload = p, qos = q,
                                 retain = r, timestamp = now\<rparr>]) \<and>
           autoinc_seq f' = largest_rowid f rs + 1"
proof -
  from assms obtain tp where t: "t = Some tp"
    by (cases t) (simp_all add: sql_insert_def)
  let ?row = "\<lparr>rowid = largest_rowid f rs + 1, topic = tp, payload = p, qos = q,
                 retain = r, timestamp = now\<rparr>"
  have "\<forall>x \<in> set rs. rowid x < rowid ?row"
    using largest_rowid_ge_row [of _ rs f] by fastforce
  then have "insort_key rowid ?row rs = rs @ [?row]"
    by (rule insort_key_greatest)
  with assms t show ?thesis
    by (auto simp: sql_insert_def Let_def split: if_splits)
qed


lemma add_effect:
  assumes "addMessageToQueue err now t p q r sw = (res, sw')"
  shows "(isl res \<and> pending sw' = pending sw \<and> high_water sw' = high_water sw) \<or>
         (res = Inr () \<and>
          (\<exists>tp. t = Some tp \<and>
             pending sw' = pending sw @
               [\<lparr>rowid = high_water sw', topic = tp, payload = stringify p,
                 qos = (case q of None \<Rightarrow> 0 | Some q' \<Rightarrow> q'),
                 retain = (if (case r of None \<Rightarrow> False | Some r' \<Rightarrow> r') then 1 else 0),
                 timestamp = now\<rparr>]) \<and>
          high_water sw < high_water sw' \<and>
          (\<forall>x \<in> set (pending sw). rowid x < high_water sw'))"
proof -
  obtain s w where sw: "sw = (s, w)" by (cases sw)
  show ?thesis
  proof (cases "db s")
    case None
    with assms sw show ?thesis by (auto simp: addMessageToQueue_def)
  next
    case (Some h)
    show ?thesis
    proof (cases "sqlite_table h err w")
      case (Inl e)
      with assms sw Some show ?thesis
        by (auto simp: addMessageToQueue_def logcall_def pending_def high_water_def)
    next
      case (Inr frs)
      obtain f rs where frs: "frs = (f, rs)" by (cases frs)
      have fw: "db_file w = Some f" and rs: "tbl f = Some rs"
        using Inr frs
        by (cases h; auto simp: sqlite_table_def split: if_splits option.splits)+
      let ?q = "case q of None \<Rightarrow> 0 | Some q' \<Rightarrow> q'"
      let ?r = "if (case r of None \<Rightarrow> False | Some r' \<Rightarrow> r') then 1 else (0::int)"
      show ?thesis
      proof (cases "sql_insert now t (stringify p) ?q ?r f rs")
        case (Inl e)
        with assms sw Some Inr frs show ?thesis
          by (auto simp: addMessageToQueue_def logcall_def pending_def high_water_def)
      next
        case ins: (Inr f')
        from sql_insert_Inr [OF ins] obtain tp where t: "t = Some tp"
          and tbl': "tbl f' = Some (rs @ [\<lparr>rowid = largest_rowid f rs + 1, topic = tp,
                payload = stringify p, qos = ?q, retain = ?r, timestamp = now\<rparr>])"
          and seq': "autoinc_seq f' = largest_rowid f rs + 1"
          by blast
        have res: "res = Inr ()" and sw': "sw' = (s, logcall DbRun (w\<lparr>db_file := Some f'\<rparr>))"
          using assms sw Some Inr frs ins by (auto simp: addMessageToQueue_def)
        have "high_water sw < high_water sw'"
          using sw sw' fw seq' largest_rowid_ge_seq [of f rs]
          by (simp add: high_water_def logcall_def)
        moreover have "\<forall>x \<in> set (pending sw). rowid x < high_water sw'"
          using sw sw' fw rs seq' largest_rowid_ge_row [of _ rs f]
          by (fastforce simp: high_water_def pending_def logcall_def)
        moreover have "pending sw' = pending sw @
               [\<lparr>rowid = high_water sw', topic = tp, payload = stringify p, qos = ?q,
                 retain = ?r, timestamp = now\<rparr>]"
          using sw sw' fw rs seq' tbl' by (simp add: high_water_def pending_def logcall_def)
        ultimately show ?thesis using res t by blast
      qed
    qed
  qed
qed

lemma run_delete_effect:
  assumes "run_delete h err nvars del w = (res, w')"
  shows "high_water (s', w') = high_water (s, w) \<and>
         (pending (s', w') = pending (s, w) \<or> pending (s', w') = del (pending (s, w)))"
proof (cases "sqlite_table h err w")
  case (Inl e)
  with assms show ?thesis
    by (cases h) (auto simp: run_delete_def logcall_def pending_def high_water_def split: if_splits)
next
  case (Inr frs)
  obtain f rs where frs: "frs = (f, rs)" by (cases frs)
  have "db_file w = Some f" and "tbl f = Some rs"
    using Inr frs by (cases h; auto simp: sqlite_table_def split: if_splits option.splits)+
  with assms Inr frs show ?thesis
    by (cases h) (auto simp: run_delete_def logcall_def pending_def high_water_def split: if_splits)
qed

lemma sql_delete_min_filter: "\<exists>P. sql_delete_min rs = filter P rs"
proof (cases "sql_min_id rs")
  case None
  then have "sql_delete_min rs = filter (\<lambda>r. True) rs" by (simp add: sql_delete_min_def)
  then show ?thesis by blast
next
  case (Some m)
  then show ?thesis by (auto simp: sql_delete_min_def)
qed


lemma keeps_same: "pending sw' = pending sw \<Longrightarrow> high_water sw' = high_water sw \<Longrightarrow> keeps sw sw'"
proof -
  assume "pending sw' = pending sw" and hw: "high_water sw' = high_water sw"
  then have "pending sw' = filter (\<lambda>r. True) (pending sw)" by simp
  then have "\<exists>P. pending sw' = filter P (pending sw)" by (rule exI [of _ "\<lambda>r. True"])
  with hw show ?thesis by (simp add: keeps_def)
qed

lemma initialize_keeps: "keeps sw (snd (initializeDatabase e sw))"
proof -
  obtain s w where sw: "sw = (s, w)" by (cases sw)
  have "pending (snd (initializeDatabase e (s, w))) = pending (s, w) \<and>
        high_water (snd (initializeDatabase e (s, w))) = high_water (s, w)"
    by (auto simp: initializeDatabase_def Let_def logcall_def pending_def high_water_def
        empty_dbfile_def sql_create_table_def split: option.splits)
  with sw show ?thesis by (simp add: keeps_same)
qed

lemma getQueueLength_keeps: "keeps sw (snd (getQueueLength err sw))"
  by (cases sw, rule keeps_same)
    (auto simp: getQueueLength_def logcall_def pending_def high_water_def split: option.splits sum.splits)

lemma getMessages_keeps: "keeps sw (snd (getMessagesFromQueue err lim sw))"
  by (cases sw, rule keeps_same)
    (auto simp: getMessagesFromQueue_def Let_def logcall_def pending_def high_water_def
      split: option.splits sum.splits)

lemma closeDatabase_keeps: "keeps sw (snd (closeDatabase err sw))"
  by (cases sw, rule keeps_same)
    (auto simp: closeDatabase_def logcall_def pending_def high_water_def
      split: option.splits database.splits)

lemma run_delete_keeps:
  assumes "run_delete h err nvars del w = (res, w')" and "\<And>rs. \<exists>P. del rs = filter P rs"
  shows "keeps (s, w) (s', w')"
proof -
  from run_delete_effect [OF assms(1), of s' s]
  have hw: "high_water (s', w') = high_water (s, w)"
    and p: "pending (s', w') = pending (s, w) \<or> pending (s', w') = del (pending (s, w))"
    by simp_all
  from p show ?thesis
  proof
    assume "pending (s', w') = pending (s, w)"
    with hw show ?thesis by (simp add: keeps_same)
  next
    assume "pending (s', w') = del (pending (s, w))"
    with hw assms(2) [of "pending (s, w)"] show ?thesis by (auto simp: keeps_def)
  qed
qed

lemma removeOldest_keeps: "keeps sw (snd (removeOldestMessage err sw))"
proof -
  obtain s w where sw: "sw = (s, w)" by (cases sw)
  show ?thesis
  proof (cases "db s")
    case None
    with sw show ?thesis by (simp add: removeOldestMessage_def keeps_same)
  next
    case (Some h)
    obtain res w' where r: "run_delete h err 0 sql_delete_min w = (res, w')"
      by (cases "run_delete h err 0 sql_delete_min w")
    from run_delete_keeps [OF r sql_delete_min_filter] sw Some r show ?thesis
      by (simp add: removeOldestMessage_def)
  qed
qed

lemma removeMessage_keeps: "keeps sw (snd (removeMessageFromQueue err i sw))"
proof -
  obtain s w where sw: "sw = (s, w)" by (cases sw)
  show ?thesis
  proof (cases "db s")
    case None
    with sw show ?thesis by (simp add: removeMessageFromQueue_def keeps_same)
  next
    case (Some h)
    obtain res w' where r: "run_delete h err 1 (sql_delete_id i) w = (res, w')"
      by (cases "run_delete h err 1 (sql_delete_id i) w")
    have "\<And>rs. \<exists>P. sql_delete_id i rs = filter P rs"
      unfolding sql_delete_id_def by blast
    from run_delete_keeps [OF r this] sw Some r show ?thesis
      by (simp add: removeMessageFromQueue_def)
  qed
qed

lemma removeMessages_keeps: "keeps sw (snd (removeMessagesFromQueue err ids sw))"
proof -
  obtain s w where sw: "sw = (s, w)" by (cases sw)
  show ?thesis
  proof (cases "db s = None \<or> length ids = 0")
    case True
    with sw show ?thesis by (auto simp: removeMessagesFromQueue_def keeps_same)
  next
    case False
    obtain res w' where r:
      "run_delete (the (db s)) err (length ids) (sql_delete_in ids) w = (res, w')"
      by (cases "run_delete (the (db s)) err (length ids) (sql_delete_in ids) w")
    have "\<And>rs. \<exists>P. sql_delete_in ids rs = filter P rs"
      unfolding sql_delete_in_def by blast
    from run_delete_keeps [OF r this, of s s] sw False r show ?thesis
      by (auto simp: removeMessagesFromQueue_def)
  qed
qed

lemma enqueue_effect:
  "(isl (fst (enqueue c sw)) \<and> keeps sw (snd (enqueue c sw))) \<or>
   (fst (enqueue c sw) = Inr () \<and> appends sw (snd (enqueue c sw)))"
proof -
  obtain res sw' where e: "enqueue c sw = (res, sw')" by (cases "enqueue c sw")
  from add_effect [OF e [unfolded enqueue_def]] show ?thesis
    unfolding e appends_def by (auto simp: keeps_same)
qed

lemma perform_effect: "keeps sw (perform a sw) \<or> appends sw (perform a sw)"
proof (cases a)
  case (AddMessage c)
  with enqueue_effect [of c sw] show ?thesis by auto
qed (simp_all add: initialize_keeps getQueueLength_keeps getMessages_keeps closeDatabase_keeps
    removeOldest_keeps removeMessage_keeps removeMessages_keeps)

subsection \<open>Identifiers\<close>

lemma keeps_new_ids: "keeps sw sw' \<Longrightarrow> new_ids sw sw' = []"
  by (auto simp: keeps_def new_ids_def filter_empty_conv)

lemma appends_new_ids:
  assumes "appends sw sw'"
  shows "new_ids sw sw' = [high_water sw']"
proof -
  from assms obtain r where p: "pending sw' = pending sw @ [r]" and r: "rowid r = high_water sw'"
    and lt: "\<forall>x \<in> set (pending sw). rowid x < high_water sw'"
    by (auto simp: appends_def)
  have "filter (\<lambda>i. i \<notin> set (map rowid (pending sw))) (map rowid (pending sw)) = []"
    by (simp add: filter_empty_conv)
  moreover have "high_water sw' \<notin> set (map rowid (pending sw))"
    using lt by fastforce
  ultimately show ?thesis
    using p r by (simp add: new_ids_def)
qed

lemma keeps_table_inv: "keeps sw sw' \<Longrightarrow> table_inv sw \<Longrightarrow> table_inv sw'"
  by (auto simp: keeps_def table_inv_def list_all_iff sorted_wrt_map intro: sorted_wrt_filter)

lemma appends_table_inv:
  assumes "appends sw sw'" and "table_inv sw"
  shows "table_inv sw'"
proof -
  from assms(1) obtain r where p: "pending sw' = pending sw @ [r]" and r: "rowid r = high_water sw'"
    and lt: "\<forall>x \<in> set (pending sw). rowid x < high_water sw'"
    by (auto simp: appends_def)
  have "sorted_wrt (<) (map rowid (pending sw'))"
    using assms(2) p r lt by (simp add: table_inv_def sorted_wrt_append)
  moreover have "\<forall>x \<in> set (pending sw'). rowid x \<le> high_water sw'"
    using p r lt by fastforce
  ultimately show ?thesis
    by (simp add: table_inv_def list_all_iff)
qed

lemma perform_table_inv: "table_inv sw \<Longrightarrow> table_inv (perform a sw)"
  using perform_effect [of sw a] keeps_table_inv appends_table_inv by blast

lemma fresh_table_inv: "table_inv (s, fresh_world)"
  by (simp add: table_inv_def pending_def high_water_def fresh_world_def)

text \<open>
  So the table is in strictly ascending identifier order, below the sequence entry, in
  every state the methods reach from a store without a file.
\<close>

lemma fold_perform_table_inv: "table_inv sw \<Longrightarrow> table_inv (fold perform ops sw)"
  by (induction ops arbitrary: sw) (simp_all add: perform_table_inv)

lemma reachable_table_inv: "table_inv (fold perform ops (s, fresh_world))"
  by (rule fold_perform_table_inv [OF fresh_table_inv])

lemma perform_high_water: "high_water sw \<le> high_water (perform a sw)"
  using perform_effect [of sw a] by (auto simp: keeps_def appends_def)

lemma perform_new_ids:
  "new_ids sw (perform a sw) = [] \<or>
   (new_ids sw (perform a sw) = [high_water (perform a sw)] \<and> high_water sw < high_water (perform a sw))"
proof -
  from perform_effect [of sw a] show ?thesis
  proof
    assume "keeps sw (perform a sw)"
    then show ?thesis by (simp add: keeps_new_ids)
  next
    assume a: "appends sw (perform a sw)"
    then have "high_water sw < high_water (perform a sw)" by (simp add: appends_def)
    with appends_new_ids [OF a] show ?thesis by simp
  qed
qed

lemma ids_assigned_increasing:
  "sorted_wrt (<) (ids_assigned ops sw) \<and> list_all (\<lambda>i. high_water sw < i) (ids_assigned ops sw)"
proof (induction ops arbitrary: sw)
  case Nil
  show ?case by simp
next
  case (Cons a as)
  let ?sw = "perform a sw"
  from Cons.IH [of ?sw]
  have s: "sorted_wrt (<) (ids_assigned as ?sw)"
    and g: "\<forall>i \<in> set (ids_assigned as ?sw). high_water ?sw < i"
    by (simp_all add: list_all_iff)
  have m: "high_water sw \<le> high_water ?sw" by (rule perform_high_water)
  from perform_new_ids [of sw a] show ?case
  proof
    assume "new_ids sw ?sw = []"
    with s g m show ?thesis by (fastforce simp: list_all_iff)
  next
    assume "new_ids sw ?sw = [high_water ?sw] \<and> high_water sw < high_water ?sw"
    with s g show ?thesis by (fastforce simp: list_all_iff)
  qed
qed

text \<open>
  Claim C3. Along any sequence of calls on one store, with deletions, \<open>close\<close> and
  \<open>initialize\<close> between them, the identifiers the successful \<open>enqueue\<close> calls assign
  are strictly increasing, each larger than the sequence entry the file started with and
  (on a table whose rows are not above that entry) than every identifier present at the
  start. A successful \<open>enqueue\<close> assigns exactly one identifier, the new sequence entry,
  larger than all identifiers in the table.
\<close>

theorem identifiers_never_reused:
  "sorted_wrt (<) (ids_assigned ops sw) \<and>
   list_all (\<lambda>i. high_water sw < i) (ids_assigned ops sw) \<and>
   (table_inv sw \<longrightarrow> list_all (\<lambda>i. list_all (\<lambda>r. rowid r < i) (pending sw)) (ids_assigned ops sw)) \<and>
   (fst (enqueue c sw) = Inr () \<longrightarrow>
      new_ids sw (snd (enqueue c sw)) = [high_water (snd (enqueue c sw))] \<and>
      high_water sw < high_water (snd (enqueue c sw)) \<and>
      list_all (\<lambda>r. rowid r < high_water (snd (enqueue c sw))) (pending sw))"
proof -
  have 1: "sorted_wrt (<) (ids_assigned ops sw)"
    and 2: "list_all (\<lambda>i. high_water sw < i) (ids_assigned ops sw)"
    using ids_assigned_increasing [of ops sw] by simp_all
  have 3: "list_all (\<lambda>i. list_all (\<lambda>r. rowid r < i) (pending sw)) (ids_assigned ops sw)"
    if "table_inv sw"
    using that 2 by (fastforce simp: table_inv_def list_all_iff)
  have 4: "new_ids sw (snd (enqueue c sw)) = [high_water (snd (enqueue c sw))] \<and>
      high_water sw < high_water (snd (enqueue c sw)) \<and>
      list_all (\<lambda>r. rowid r < high_water (snd (enqueue c sw))) (pending sw)"
    if "fst (enqueue c sw) = Inr ()"
  proof -
    from that enqueue_effect [of c sw] have a: "appends sw (snd (enqueue c sw))" by auto
    then show ?thesis using appends_new_ids [OF a] by (simp add: appends_def list_all_iff)
  qed
  from 1 2 3 4 show ?thesis by blast
qed

lemmas run_defs = new_ids_def pending_def high_water_def
  enqueue_def three_enqueues_def sql_insert_def largest_rowid_def max_rowid_def
  sql_delete_min_def sql_min_id_def sql_delete_id_def

theorem identifiers_never_reused_witness:
  "ids_assigned three_enqueues (new_SQLiteQueueManager ''b1'', fresh_world) = [1, 2, 3] \<and>
   sorted_wrt (<) (ids_assigned three_enqueues (new_SQLiteQueueManager ''b1'', fresh_world)) \<and>
   fst (enqueue \<lparr>call_err = None, call_now = 0, call_topic = Some ''a'', call_payload = JNull,
                 call_qos = None, call_retain = None\<rparr> (open_store ''b1'', world_of [] 7)) = Inr () \<and>
   new_ids (open_store ''b1'', world_of [] 7)
     (snd (enqueue \<lparr>call_err = None, call_now = 0, call_topic = Some ''a'', call_payload = JNull,
                 call_qos = None, call_retain = None\<rparr> (open_store ''b1'', world_of [] 7))) = [8]"
proof -
  have i: "ids_assigned three_enqueues (new_SQLiteQueueManager ''b1'', fresh_world) = [1, 2, 3]"
    by (simp add: run_defs method_defs example_defs)
  have e: "fst (enqueue \<lparr>call_err = None, call_now = 0, call_topic = Some ''a'', call_payload = JNull,
                 call_qos = None, call_retain = None\<rparr> (open_store ''b1'', world_of [] 7)) = Inr ()"
    by (simp add: run_defs method_defs example_defs)
  have h: "high_water (snd (enqueue \<lparr>call_err = None, call_now = 0, call_topic = Some ''a'',
             call_payload = JNull, call_qos = None, call_retain = None\<rparr>
             (open_store ''b1'', world_of [] 7))) = 8"
    by (simp add: run_defs method_defs example_defs)
  show ?thesis
    using i e h
      identifiers_never_reused [of three_enqueues "(new_SQLiteQueueManager ''b1'', fresh_world)"
        "\<lparr>call_err = None, call_now = 0, call_topic = Some ''a'', call_payload = JNull,
                 call_qos = None, call_retain = None\<rparr>"]
      identifiers_never_reused [of "[]" "(open_store ''b1'', world_of [] 7)"
        "\<lparr>call_err = None, call_now = 0, call_topic = Some ''a'', call_payload = JNull,
                 call_qos = None, call_retain = None\<rparr>"]
    by simp
qed

subsection \<open>Listing\<close>

text \<open>A first successful \<open>initialize\<close> leaves the handle open and the table present.\<close>

lemma initialize_table_open:
  "db s = None \<Longrightarrow> fst (initializeDatabase e (s, w)) = Inr h
     \<Longrightarrow> table_open (snd (initializeDatabase e (s, w)))"
  by (auto simp: initializeDatabase_def table_open_def Let_def logcall_def sql_create_table_def
      empty_dbfile_def split: option.splits if_splits)

lemma add_table_open:
  "table_open sw \<Longrightarrow> table_open (snd (addMessageToQueue err now t p q r sw))"
  by (cases sw)
    (auto simp: table_open_def addMessageToQueue_def sqlite_table_def sql_insert_def Let_def
      logcall_def split: option.splits sum.splits if_splits)

lemma getMessages_table_open:
  assumes "table_open sw"
  shows "fst (getMessagesFromQueue None lim sw)
           = (case sql_select_limit (case lim of None \<Rightarrow> 500 | Some l \<Rightarrow> l) (pending sw) of
                Inl e \<Rightarrow> Inl e
              | Inr rows \<Rightarrow> Inr (map js_row rows))"
proof -
  obtain s w where sw: "sw = (s, w)" by (cases sw)
  with assms show ?thesis
    by (auto simp: table_open_def getMessagesFromQueue_def sqlite_table_def pending_def
        split: option.splits sum.splits)
qed

lemma getMessages_Inr:
  assumes "fst (getMessagesFromQueue err lim (s, w)) = Inr out"
  shows "out = [] \<or>
         (\<exists>rows. sql_select_limit (case lim of None \<Rightarrow> 500 | Some l \<Rightarrow> l) (pending (s, w)) = Inr rows
            \<and> out = map js_row rows)"
proof (cases "db s")
  case None
  with assms show ?thesis by (simp add: getMessagesFromQueue_def)
next
  case (Some h)
  obtain opened where "h = Database opened" by (cases h)
  with assms Some show ?thesis
    by (auto simp: getMessagesFromQueue_def sqlite_table_def pending_def
        split: option.splits sum.splits if_splits)
qed

lemma select_limit_prefix:
  assumes "sql_select_limit l rs = Inr rows"
  shows "\<exists>n. rows = take n rs \<and> (0 \<le> l \<longrightarrow> int (length rows) \<le> l)"
proof (cases "l < 0")
  case True
  with assms have "rows = take (length rs) rs" by (simp add: sql_select_limit_def split: if_splits)
  with True show ?thesis by (metis not_le)
next
  case False
  with assms have "rows = take (nat l) rs" by (simp add: sql_select_limit_def split: if_splits)
  moreover from this False have "int (length rows) \<le> l" by simp
  ultimately show ?thesis by blast
qed

lemma js_rows_sorted:
  assumes "sorted_wrt (<) (map rowid xs)"
  shows "sorted_wrt (\<le>) (map rowid (map js_row xs))"
proof -
  have e: "map rowid (map js_row xs) = map js_number (map rowid xs)"
    by (simp add: rowid_js_row)
  show ?thesis
    unfolding e using assms by (rule sorted_js_numbers)
qed

lemma js_rows_exact:
  "list_all (\<lambda>r. \<bar>rowid r\<bar> \<le> 9007199254740992) xs
     \<Longrightarrow> map rowid (map js_row xs) = map rowid xs"
  by (induction xs) (simp_all add: rowid_js_row js_number_exact)

lemma list_all_take: "list_all P xs \<Longrightarrow> list_all P (take n xs)"
  by (auto simp: list_all_iff dest: in_set_takeD)

lemma sorted_take_rowid:
  "sorted_wrt (<) (map rowid xs) \<Longrightarrow> sorted_wrt (<) (map rowid (take n xs))"
  by (simp add: take_map [symmetric] sorted_wrt_take)

text \<open>
  Beyond \<open>2^53\<close> neighbouring identifiers come back as the same number.
\<close>

lemma colliding_identifiers:
  "map rowid (map js_row [msg 9007199254740992 ''a'', msg 9007199254740993 ''b''])
     = [9007199254740992, 9007199254740992]"
  by (simp add: js_row_def js_number_def round_nat_def Let_def ulp.simps msg_def)

lemma enqueue_all_effect:
  assumes "enqueue_all cs sw = Inr sw'" and "sorted_wrt (<) (map rowid (pending sw))"
    and "table_open sw"
  shows "\<exists>news. pending sw' = pending sw @ news \<and> map row_fields news = map call_fields cs \<and>
           sorted_wrt (<) (map rowid (pending sw')) \<and> table_open sw'"
  using assms
proof (induction cs arbitrary: sw)
  case Nil
  then show ?case by simp
next
  case (Cons c cs)
  obtain res sw1 where e: "enqueue c sw = (res, sw1)" by (cases "enqueue c sw")
  with Cons.prems(1) have res: "res = Inr ()" and rest: "enqueue_all cs sw1 = Inr sw'"
    by (auto split: sum.splits)
  from add_effect [OF e [unfolded enqueue_def]] res
  obtain tp where tp: "call_topic c = Some tp"
    and p1: "pending sw1 = pending sw @
        [\<lparr>rowid = high_water sw1, topic = tp, payload = stringify (call_payload c),
          qos = (case call_qos c of None \<Rightarrow> 0 | Some q' \<Rightarrow> q'),
          retain = (if (case call_retain c of None \<Rightarrow> False | Some r' \<Rightarrow> r') then 1 else 0),
          timestamp = call_now c\<rparr>]"
    and lt: "\<forall>x \<in> set (pending sw). rowid x < high_water sw1"
    by auto
  have s1: "sorted_wrt (<) (map rowid (pending sw1))"
    using Cons.prems(2) p1 lt by (simp add: sorted_wrt_append)
  have o1: "table_open sw1"
    using add_table_open [OF Cons.prems(3), of "call_err c" "call_now c" "call_topic c"
        "call_payload c" "call_qos c" "call_retain c"] e
    by (simp add: enqueue_def)
  from Cons.IH [OF rest s1 o1] obtain news where
    n: "pending sw' = pending sw1 @ news" "map row_fields news = map call_fields cs"
      "sorted_wrt (<) (map rowid (pending sw'))" "table_open sw'"
    by blast
  let ?row = "\<lparr>rowid = high_water sw1, topic = tp, payload = stringify (call_payload c),
          qos = (case call_qos c of None \<Rightarrow> 0 | Some q' \<Rightarrow> q'),
          retain = (if (case call_retain c of None \<Rightarrow> False | Some r' \<Rightarrow> r') then 1 else 0),
          timestamp = call_now c\<rparr>"
  have "pending sw' = pending sw @ (?row # news)"
    using n(1) p1 by simp
  moreover have "map row_fields (?row # news) = map call_fields (c # cs)"
    using n(2) tp by (simp add: row_fields_def call_fields_def)
  ultimately show ?case using n(3,4) by blast
qed

text \<open>
  Claim C1 says that \<open>list(limit)\<close> returns up to \<open>limit\<close> pending messages, sorted by
  identifier, for every limit and every store state. With the limit \<open>2^63\<close> the call is
  rejected with the engine's datatype mismatch and returns no message of a queue that
  holds one. And on the table that holds the identifiers \<open>2^53\<close> and \<open>2^53 + 1\<close>,
  \<open>list()\<close> returns two messages that both carry the identifier \<open>2^53\<close>.
\<close>

theorem huge_limit_counterexample:
  "fst (getMessagesFromQueue None (Some 9223372036854775808)
         (open_store ''b1'', world_of [msg 1 ''a''] 1))
     = Inl (SqliteError ''SQLITE_MISMATCH: datatype mismatch'') \<and>
   fst (getMessagesFromQueue None None
         (open_store ''b1'',
          world_of [msg 9007199254740992 ''a'', msg 9007199254740993 ''b''] 9007199254740993))
     = Inr [msg 9007199254740992 ''a'', msg 9007199254740992 ''b'']"
  by (simp add: getMessagesFromQueue_def sqlite_table_def sql_select_limit_def js_row_def
      js_number_def round_nat_def Let_def ulp.simps example_defs)

text \<open>
  Claim C1, amended. On a table in identifier order, whatever \<open>list\<close> returns is a prefix
  of the pending messages, each with its identifier as a JavaScript number, and has at
  most \<open>limit\<close> elements for a limit \<open>\<ge> 0\<close>. The returned identifiers are in ascending
  order; while no identifier exceeds \<open>2^53\<close> in magnitude they are the stored ones and
  strictly ascending. On an initialized store whose engine call does not fail, \<open>list\<close>
  with an integer limit from 0 to below \<open>2^63\<close> returns the first \<open>limit\<close> pending
  messages, and a limit of \<open>2^63\<close> or more is rejected. After a sequence of successful
  \<open>enqueue\<close> calls the table is the old rows followed by one row per call, in the order
  of the calls and of their identifiers, and \<open>list()\<close> returns the first 500 of them.
\<close>

theorem list_in_identifier_order:
  assumes "sorted_wrt (<) (map rowid (pending (s, w)))"
  shows "(\<forall>out. fst (getMessagesFromQueue err lim (s, w)) = Inr out \<longrightarrow>
            (\<exists>n. out = map js_row (take n (pending (s, w)))) \<and>
            sorted_wrt (\<le>) (map rowid out) \<and>
            (list_all (\<lambda>r. \<bar>rowid r\<bar> \<le> 9007199254740992) (pending (s, w)) \<longrightarrow>
               (\<exists>n. map rowid out = map rowid (take n (pending (s, w)))) \<and>
               sorted_wrt (<) (map rowid out)) \<and>
            (0 \<le> (case lim of None \<Rightarrow> 500 | Some l \<Rightarrow> l) \<longrightarrow>
               int (length out) \<le> (case lim of None \<Rightarrow> 500 | Some l \<Rightarrow> l))) \<and>
         (table_open (s, w) \<longrightarrow>
            (0 \<le> (case lim of None \<Rightarrow> 500 | Some l \<Rightarrow> l) \<and>
             (case lim of None \<Rightarrow> 500 | Some l \<Rightarrow> l) < 9223372036854775808 \<longrightarrow>
               fst (getMessagesFromQueue None lim (s, w))
                 = Inr (map js_row
                     (take (nat (case lim of None \<Rightarrow> 500 | Some l \<Rightarrow> l)) (pending (s, w))))) \<and>
            (9223372036854775808 \<le> (case lim of None \<Rightarrow> 500 | Some l \<Rightarrow> l) \<longrightarrow>
               fst (getMessagesFromQueue None lim (s, w))
                 = Inl (SqliteError ''SQLITE_MISMATCH: datatype mismatch'')) \<and>
            (\<forall>cs sw'. enqueue_all cs (s, w) = Inr sw' \<longrightarrow>
               fst (getMessagesFromQueue None None sw') = Inr (map js_row (take 500 (pending sw'))) \<and>
               sorted_wrt (<) (map rowid (pending sw')) \<and>
               take (length (pending (s, w))) (pending sw') = pending (s, w) \<and>
               map row_fields (drop (length (pending (s, w))) (pending sw')) = map call_fields cs))"
proof -
  let ?l = "case lim of None \<Rightarrow> 500 | Some l \<Rightarrow> l"
  let ?safe = "list_all (\<lambda>r. \<bar>rowid r\<bar> \<le> 9007199254740992)"
  have A: "(\<exists>n. out = map js_row (take n (pending (s, w)))) \<and>
           sorted_wrt (\<le>) (map rowid out) \<and>
           (?safe (pending (s, w)) \<longrightarrow>
              (\<exists>n. map rowid out = map rowid (take n (pending (s, w)))) \<and>
              sorted_wrt (<) (map rowid out)) \<and>
           (0 \<le> ?l \<longrightarrow> int (length out) \<le> ?l)"
    if out: "fst (getMessagesFromQueue err lim (s, w)) = Inr out" for out
  proof -
    have "\<exists>n. out = map js_row (take n (pending (s, w))) \<and> (0 \<le> ?l \<longrightarrow> int (length out) \<le> ?l)"
    proof -
      from getMessages_Inr [OF out] show ?thesis
      proof
        assume "out = []"
        then have "out = map js_row (take 0 (pending (s, w))) \<and> (0 \<le> ?l \<longrightarrow> int (length out) \<le> ?l)"
          by simp
        then show ?thesis by blast
      next
        assume "\<exists>rows. sql_select_limit ?l (pending (s, w)) = Inr rows \<and> out = map js_row rows"
        then obtain rows where r: "sql_select_limit ?l (pending (s, w)) = Inr rows"
          and o: "out = map js_row rows" by blast
        from select_limit_prefix [OF r] obtain n where
          "rows = take n (pending (s, w))" "0 \<le> ?l \<longrightarrow> int (length rows) \<le> ?l" by blast
        with o have "out = map js_row (take n (pending (s, w))) \<and> (0 \<le> ?l \<longrightarrow> int (length out) \<le> ?l)"
          by simp
        then show ?thesis by blast
      qed
    qed
    then obtain n where n: "out = map js_row (take n (pending (s, w)))"
      and len: "0 \<le> ?l \<longrightarrow> int (length out) \<le> ?l" by blast
    have st: "sorted_wrt (<) (map rowid (take n (pending (s, w))))"
      using assms by (rule sorted_take_rowid)
    have w: "sorted_wrt (\<le>) (map rowid out)"
      unfolding n using st by (rule js_rows_sorted)
    have e: "(\<exists>n. map rowid out = map rowid (take n (pending (s, w)))) \<and>
             sorted_wrt (<) (map rowid out)"
      if "?safe (pending (s, w))"
    proof -
      from that have "?safe (take n (pending (s, w)))" by (rule list_all_take)
      then have x: "map rowid (map js_row (take n (pending (s, w))))
          = map rowid (take n (pending (s, w)))"
        by (rule js_rows_exact)
      then have "map rowid out = map rowid (take n (pending (s, w)))"
        unfolding n .
      moreover from this st have "sorted_wrt (<) (map rowid out)"
        by (simp only:)
      ultimately show ?thesis by blast
    qed
    from n w e len show ?thesis by blast
  qed
  have B: "fst (getMessagesFromQueue None lim (s, w))
             = Inr (map js_row (take (nat ?l) (pending (s, w))))"
    if "table_open (s, w)" "0 \<le> ?l" "?l < 9223372036854775808"
    using getMessages_table_open [OF that(1), of lim] that(2,3)
    by (simp add: sql_select_limit_def)
  have B': "fst (getMessagesFromQueue None lim (s, w))
             = Inl (SqliteError ''SQLITE_MISMATCH: datatype mismatch'')"
    if "table_open (s, w)" "9223372036854775808 \<le> ?l"
    using getMessages_table_open [OF that(1), of lim] that(2)
    by (simp add: sql_select_limit_def)
  have C: "fst (getMessagesFromQueue None None sw') = Inr (map js_row (take 500 (pending sw'))) \<and>
           sorted_wrt (<) (map rowid (pending sw')) \<and>
           take (length (pending (s, w))) (pending sw') = pending (s, w) \<and>
           map row_fields (drop (length (pending (s, w))) (pending sw')) = map call_fields cs"
    if "table_open (s, w)" "enqueue_all cs (s, w) = Inr sw'" for cs sw'
  proof -
    from enqueue_all_effect [OF that(2) assms that(1)] obtain news where
      n: "pending sw' = pending (s, w) @ news" "map row_fields news = map call_fields cs"
        "sorted_wrt (<) (map rowid (pending sw'))" "table_open sw'"
      by blast
    from getMessages_table_open [OF n(4), of None]
    have "fst (getMessagesFromQueue None None sw') = Inr (map js_row (take 500 (pending sw')))"
      by (simp add: sql_select_limit_def)
    with n show ?thesis by simp
  qed
  from A B B' C show ?thesis by blast
qed

theorem list_in_identifier_order_witness:
  "fst (getMessagesFromQueue None (Some 2)
         (open_store ''b1'', world_of [msg 1 ''a'', msg 2 ''b'', msg 4 ''c''] 4))
     = Inr [msg 1 ''a'', msg 2 ''b''] \<and>
   enqueue_all two_calls (open_store ''b1'', world_of [msg 1 ''a''] 1)
     = Inr (open_store ''b1'',
            \<lparr>dir_exists = True,
             db_file = Some \<lparr>tbl = Some [msg 1 ''a'',
                 \<lparr>rowid = 2, topic = ''b'', payload = ''true'', qos = 1, retain = 1, timestamp = 3\<rparr>,
                 \<lparr>rowid = 3, topic = ''c'', payload = ''-7'', qos = 0, retain = 0, timestamp = 4\<rparr>],
               autoinc_seq = 3\<rparr>,
             calls = [DbRun, DbRun]\<rparr>) \<and>
   fst (getMessagesFromQueue None None (open_store ''b1'',
            \<lparr>dir_exists = True,
             db_file = Some \<lparr>tbl = Some [msg 1 ''a'',
                 \<lparr>rowid = 2, topic = ''b'', payload = ''true'', qos = 1, retain = 1, timestamp = 3\<rparr>,
                 \<lparr>rowid = 3, topic = ''c'', payload = ''-7'', qos = 0, retain = 0, timestamp = 4\<rparr>],
               autoinc_seq = 3\<rparr>,
             calls = [DbRun, DbRun]\<rparr>))
     = Inr [msg 1 ''a'',
            \<lparr>rowid = 2, topic = ''b'', payload = ''true'', qos = 1, retain = 1, timestamp = 3\<rparr>,
            \<lparr>rowid = 3, topic = ''c'', payload = ''-7'', qos = 0, retain = 0, timestamp = 4\<rparr>] \<and>
   fst (getMessagesFromQueue None None
         (open_store ''b1'',
          world_of [msg 9007199254740992 ''a'', msg 9007199254740993 ''b''] 9007199254740993))
     = Inr [msg 9007199254740992 ''a'', msg 9007199254740992 ''b'']"
proof -
  let ?sw' = "(open_store ''b1'',
            \<lparr>dir_exists = True,
             db_file = Some \<lparr>tbl = Some [msg 1 ''a'',
                 \<lparr>rowid = 2, topic = ''b'', payload = ''true'', qos = 1, retain = 1, timestamp = 3\<rparr>,
                 \<lparr>rowid = 3, topic = ''c'', payload = ''-7'', qos = 0, retain = 0, timestamp = 4\<rparr>],
               autoinc_seq = 3\<rparr>,
             calls = [DbRun, DbRun]\<rparr>)"
  have e: "enqueue_all two_calls (open_store ''b1'', world_of [msg 1 ''a''] 1) = Inr ?sw'"
    by (simp add: two_calls_def enqueue_def addMessageToQueue_def sqlite_table_def sql_insert_def
        largest_rowid_def max_rowid_def logcall_def number_to_string_def decimal_int_def decimal.simps
        digit_char_def example_defs)
  have p: "pending ?sw' = [msg 1 ''a'',
            \<lparr>rowid = 2, topic = ''b'', payload = ''true'', qos = 1, retain = 1, timestamp = 3\<rparr>,
            \<lparr>rowid = 3, topic = ''c'', payload = ''-7'', qos = 0, retain = 0, timestamp = 4\<rparr>]"
    by (simp add: pending_def)
  have s1: "sorted_wrt (<) (map rowid (pending (open_store ''b1'', world_of [msg 1 ''a''] 1)))"
    and o1: "table_open (open_store ''b1'', world_of [msg 1 ''a''] 1)"
    by (simp_all add: pending_def table_open_def example_defs)
  have s2: "sorted_wrt (<) (map rowid (pending (open_store ''b1'',
      world_of [msg 1 ''a'', msg 2 ''b'', msg 4 ''c''] 4)))"
    and o2: "table_open (open_store ''b1'', world_of [msg 1 ''a'', msg 2 ''b'', msg 4 ''c''] 4)"
    and p2: "pending (open_store ''b1'', world_of [msg 1 ''a'', msg 2 ''b'', msg 4 ''c''] 4)
       = [msg 1 ''a'', msg 2 ''b'', msg 4 ''c'']"
    by (simp_all add: pending_def table_open_def example_defs)
  from list_in_identifier_order [OF s1, of None None] o1 e p
  have a: "fst (getMessagesFromQueue None None ?sw') = Inr [msg 1 ''a'',
            \<lparr>rowid = 2, topic = ''b'', payload = ''true'', qos = 1, retain = 1, timestamp = 3\<rparr>,
            \<lparr>rowid = 3, topic = ''c'', payload = ''-7'', qos = 0, retain = 0, timestamp = 4\<rparr>]"
    by (simp add: js_row_def js_number_exact msg_def)
  from list_in_identifier_order [OF s2, of None "Some 2"] o2 p2
  have b: "fst (getMessagesFromQueue None (Some 2)
         (open_store ''b1'', world_of [msg 1 ''a'', msg 2 ''b'', msg 4 ''c''] 4))
     = Inr [msg 1 ''a'', msg 2 ''b'']"
    by (simp add: js_row_def js_number_exact msg_def)
  have s3: "sorted_wrt (<) (map rowid (pending (open_store ''b1'',
      world_of [msg 9007199254740992 ''a'', msg 9007199254740993 ''b''] 9007199254740993)))"
    and o3: "table_open (open_store ''b1'',
      world_of [msg 9007199254740992 ''a'', msg 9007199254740993 ''b''] 9007199254740993)"
    and p3: "pending (open_store ''b1'',
      world_of [msg 9007199254740992 ''a'', msg 9007199254740993 ''b''] 9007199254740993)
       = [msg 9007199254740992 ''a'', msg 9007199254740993 ''b'']"
    by (simp_all add: pending_def table_open_def example_defs)
  from list_in_identifier_order [OF s3, of None None] o3 p3
  have c: "fst (getMessagesFromQueue None None
         (open_store ''b1'',
          world_of [msg 9007199254740992 ''a'', msg 9007199254740993 ''b''] 9007199254740993))
     = Inr [msg 9007199254740992 ''a'', msg 9007199254740992 ''b'']"
    by (simp add: js_row_def js_number_def round_nat_def Let_def ulp.simps msg_def)
  from a b c e show ?thesis by simp
qed

subsection \<open>\<open>JSON.stringify\<close> is injective\<close>





























subsection \<open>Enqueue, then list\<close>




end
